theory Spec2Isabelle
  imports Complex_Main "HOL-Library.Word"
begin

section \<open>The public types of embedids.h\<close>

text \<open>
  Modelled from the spec: the header embedids.h (the result codes, the metric, algorithm and
  configuration structures, and the constant EMBEDIDS_MAX_METRIC_NAME_LEN) is not among the
  sources. The types below are rebuilt from the field accesses of embedids.c and of the
  tests, and from sections 3 and 6 of the specification.

  Conventions of the embedding.
  \<^item> \<open>uint32_t\<close> and \<open>uint64_t\<close> are \<open>32 word\<close> and \<open>64 word\<close>.
  \<^item> \<open>float\<close> and \<open>double\<close> values are the real numbers they denote; rounding, infinities
    and NaN are outside the model.
  \<^item> A C union is a record of its members: each field is the union read at that member.
  \<^item> A pointer to a caller-owned array is the list of its elements; where the code tests the
    pointer against NULL the list is wrapped in \<open>option\<close>.
  \<^item> A computation whose C behaviour is undefined (an access outside an array, a NULL
    dereference, a division by zero) has the value \<open>None\<close>; \<open>Some r\<close> is a normal return.
\<close>

datatype embedids_result_t =
    EMBEDIDS_OK
  | EMBEDIDS_ERROR_INVALID_PARAM
  | EMBEDIDS_ERROR_NOT_INITIALIZED
  | EMBEDIDS_ERROR_ALREADY_INITIALIZED
  | EMBEDIDS_ERROR_CONFIG_INVALID
  | EMBEDIDS_ERROR_OUT_OF_MEMORY
  | EMBEDIDS_ERROR_BUFFER_FULL
  | EMBEDIDS_ERROR_BUFFER_CORRUPT
  | EMBEDIDS_ERROR_ALIGNMENT_ERROR
  | EMBEDIDS_ERROR_METRIC_NOT_FOUND
  | EMBEDIDS_ERROR_METRIC_DISABLED
  | EMBEDIDS_ERROR_METRIC_TYPE_MISMATCH
  | EMBEDIDS_ERROR_METRIC_NAME_TOO_LONG
  | EMBEDIDS_ERROR_ALGORITHM_FAILED
  | EMBEDIDS_ERROR_ALGORITHM_NOT_SUPPORTED
  | EMBEDIDS_ERROR_CUSTOM_ALGORITHM_NULL
  | EMBEDIDS_ERROR_THRESHOLD_EXCEEDED
  | EMBEDIDS_ERROR_TREND_ANOMALY
  | EMBEDIDS_ERROR_CUSTOM_DETECTION
  | EMBEDIDS_ERROR_STATISTICAL_ANOMALY
  | EMBEDIDS_ERROR_TIMEOUT
  | EMBEDIDS_ERROR_HARDWARE_FAULT
  | EMBEDIDS_ERROR_TIMESTAMP_INVALID
  | EMBEDIDS_ERROR_THREAD_UNSAFE

datatype embedids_metric_type_t =
    EMBEDIDS_METRIC_TYPE_UINT32
  | EMBEDIDS_METRIC_TYPE_UINT64
  | EMBEDIDS_METRIC_TYPE_FLOAT
  | EMBEDIDS_METRIC_TYPE_PERCENTAGE
  | EMBEDIDS_METRIC_TYPE_RATE
  | EMBEDIDS_METRIC_TYPE_DOUBLE
  | EMBEDIDS_METRIC_TYPE_BOOL
  | EMBEDIDS_METRIC_TYPE_ENUM

datatype embedids_algorithm_type_t =
    EMBEDIDS_ALGORITHM_THRESHOLD
  | EMBEDIDS_ALGORITHM_TREND
  | EMBEDIDS_ALGORITHM_CUSTOM

datatype embedids_trend_t =
    EMBEDIDS_TREND_STABLE
  | EMBEDIDS_TREND_INCREASING
  | EMBEDIDS_TREND_DECREASING

text \<open>
  Modelled from the spec: the union \<open>embedids_metric_value_t\<close>. The member names are those
  the sources use; \<open>enum_val\<close> is an integer whose width and signedness the sources do not
  show, so it is a mathematical integer.
\<close>

record embedids_metric_value_t =
  f32 :: real
  f64 :: real
  u32 :: "32 word"
  u64 :: "64 word"
  boolean :: bool
  enum_val :: int

record embedids_metric_datapoint_t =
  "value" :: embedids_metric_value_t
  timestamp_ms :: "64 word"

record embedids_threshold_config_t =
  min_threshold :: embedids_metric_value_t
  max_threshold :: embedids_metric_value_t
  check_min :: bool
  check_max :: bool

record embedids_trend_config_t =
  window_size :: "32 word"
  max_slope :: real
  max_variance :: real
  expected_trend :: embedids_trend_t

record embedids_metric_t =
  name :: string
  type :: embedids_metric_type_t
  history :: "embedids_metric_datapoint_t list option"
  max_history_size :: "32 word"
  current_size :: "32 word"
  write_index :: "32 word"
  enabled :: bool

text \<open>
  The name is the content of the fixed array \<open>char name[EMBEDIDS_MAX_METRIC_NAME_LEN]\<close> up
  to its terminator: a list of fewer characters than the array has bytes is followed by NUL
  bytes, a list of exactly that many characters fills the array and has no terminator.

  Two structures share the field names \<open>type\<close> and \<open>enabled\<close> (metric and algorithm) and
  \<open>config\<close> (the algorithm's union and the custom detector's pointer); these fields are always
  written with their record name, for example \<open>embedids_algorithm_t.enabled\<close>.

  A custom detector receives the metric read-only, and two opaque pointers (addresses; 0 is
  NULL). What it reads and writes behind them is host memory, of type \<open>'h\<close>: the detector maps
  the host memory before the call to its result code and the host memory after it.
\<close>

record 'h embedids_custom_config_t =
  "function" :: "(embedids_metric_t \<Rightarrow> nat \<Rightarrow> nat \<Rightarrow> 'h \<Rightarrow> embedids_result_t \<times> 'h) option"
  "config" :: nat
  "context" :: nat

record 'h embedids_algorithm_config_t =
  threshold :: embedids_threshold_config_t
  trend :: embedids_trend_config_t
  custom :: "'h embedids_custom_config_t"

record 'h embedids_algorithm_t =
  type :: embedids_algorithm_type_t
  enabled :: bool
  "config" :: "'h embedids_algorithm_config_t"

record 'h embedids_metric_config_t =
  metric :: embedids_metric_t
  algorithms :: "'h embedids_algorithm_t list"
  num_algorithms :: "32 word"

record 'h embedids_system_config_t =
  metrics :: "'h embedids_metric_config_t list"
  max_metrics :: "32 word"
  num_active_metrics :: "32 word"
  user_context :: nat

text \<open>
  The context holds a pointer to the host's system configuration. The engine reaches the
  configuration, the metrics and the history buffers only through this pointer, so the
  context of the model carries the configuration it points to (\<open>None\<close> is the NULL pointer),
  and a write through the pointer is an update of that component.
\<close>

record 'h embedids_context_t =
  system_config :: "'h embedids_system_config_t option"
  initialized :: bool

text \<open>
  Modelled from the spec: the constant EMBEDIDS_MAX_METRIC_NAME_LEN, whose definition is in
  the missing header. Section 6 of the specification gives 32 bytes as the value to pick.
\<close>

definition EMBEDIDS_MAX_METRIC_NAME_LEN :: nat where
  "EMBEDIDS_MAX_METRIC_NAME_LEN = 32"

section \<open>Library functions and array accesses\<close>

text \<open>
  \<open>strncmp\<close> of the C library, on strings given by their characters. The end of a list is
  the terminating NUL; a NUL character inside a list terminates the string there. The result
  is the difference of the first two bytes that differ, read as unsigned characters.
\<close>

fun strncmp :: "string \<Rightarrow> string \<Rightarrow> nat \<Rightarrow> int" where
  "strncmp s1 s2 0 = 0"
| "strncmp [] [] (Suc n) = 0"
| "strncmp [] (c2 # s2) (Suc n) = - int (of_char c2)"
| "strncmp (c1 # s1) [] (Suc n) = int (of_char c1)"
| "strncmp (c1 # s1) (c2 # s2) (Suc n) =
     (if c1 \<noteq> c2 then int (of_char c1) - int (of_char c2)
      else if c1 = CHR 0x00 then 0
      else strncmp s1 s2 n)"

text \<open>Reading \<open>a[i]\<close> through a pointer: undefined for a NULL pointer and outside the array.\<close>

definition array_read :: "'a list option \<Rightarrow> nat \<Rightarrow> 'a option" where
  "array_read a i =
     (case a of
        None \<Rightarrow> None
      | Some xs \<Rightarrow> if i < length xs then Some (xs ! i) else None)"

text \<open>
  The pointer \<open>&context->system_config->metrics[i]\<close> is the index \<open>i\<close>; \<open>deref_config\<close> reads
  the structure it points to and \<open>store_metric\<close> writes its \<open>metric\<close> member.
\<close>

definition deref_config :: "'h embedids_context_t \<Rightarrow> nat \<Rightarrow> 'h embedids_metric_config_t option" where
  "deref_config c i =
     (case system_config c of
        None \<Rightarrow> None
      | Some sc \<Rightarrow> if i < length (metrics sc) then Some (metrics sc ! i) else None)"

definition store_metric :: "'h embedids_context_t \<Rightarrow> nat \<Rightarrow> embedids_metric_t \<Rightarrow> 'h embedids_context_t" where
  "store_metric c i m =
     (case system_config c of
        None \<Rightarrow> c
      | Some sc \<Rightarrow>
          c\<lparr>system_config := Some (sc\<lparr>metrics := (metrics sc)[i := (metrics sc ! i)\<lparr>metric := m\<rparr>]\<rparr>)\<rparr>)"

section \<open>embedids.c\<close>

subsection \<open>find_metric_config\<close>

function find_metric_loop :: "'h embedids_system_config_t \<Rightarrow> string \<Rightarrow> nat \<Rightarrow> nat option option" where
  "find_metric_loop sc metric_name i =
     (if i < unat (num_active_metrics sc) then
        (if i < length (metrics sc) then
           (if strncmp (name (metric (metrics sc ! i))) metric_name EMBEDIDS_MAX_METRIC_NAME_LEN = 0
            then Some (Some i)
            else find_metric_loop sc metric_name (i + 1))
         else None)
      else Some None)"
  by pat_completeness auto

termination
  by (relation "measure (\<lambda>(sc, metric_name, i). unat (num_active_metrics sc) - i)") auto

declare find_metric_loop.simps [simp del]

definition find_metric_config :: "'h embedids_context_t option \<Rightarrow> string \<Rightarrow> nat option option" where
  "find_metric_config ctx metric_name =
     (case ctx of
        None \<Rightarrow> Some None
      | Some c \<Rightarrow>
          (case system_config c of
             None \<Rightarrow> Some None
           | Some sc \<Rightarrow> find_metric_loop sc metric_name 0))"

subsection \<open>run_threshold_algorithm and run_trend_algorithm\<close>

definition exceeds :: "bool \<Rightarrow> bool \<Rightarrow> 'a::ord \<Rightarrow> 'a \<Rightarrow> 'a \<Rightarrow> embedids_result_t" where
  "exceeds chk_min chk_max v lo hi =
     (if chk_min \<and> v < lo then EMBEDIDS_ERROR_THRESHOLD_EXCEEDED
      else if chk_max \<and> v > hi then EMBEDIDS_ERROR_THRESHOLD_EXCEEDED
      else EMBEDIDS_OK)"

definition run_threshold_algorithm ::
  "embedids_metric_t \<Rightarrow> embedids_threshold_config_t \<Rightarrow> embedids_result_t option" where
  "run_threshold_algorithm m cfg =
     (if current_size m = 0 then Some EMBEDIDS_OK
      else
        let latest_index =
              (if write_index m > 0 then write_index m - 1 else max_history_size m - 1)
        in case array_read (history m) (unat latest_index) of
             None \<Rightarrow> None
           | Some latest \<Rightarrow>
               let latest_value = value latest;
                   lo = min_threshold cfg;
                   hi = max_threshold cfg
               in Some
                 (case embedids_metric_t.type m of
                    EMBEDIDS_METRIC_TYPE_UINT32 \<Rightarrow>
                      exceeds (check_min cfg) (check_max cfg) (u32 latest_value) (u32 lo) (u32 hi)
                  | EMBEDIDS_METRIC_TYPE_UINT64 \<Rightarrow>
                      exceeds (check_min cfg) (check_max cfg) (u64 latest_value) (u64 lo) (u64 hi)
                  | EMBEDIDS_METRIC_TYPE_FLOAT \<Rightarrow>
                      exceeds (check_min cfg) (check_max cfg) (f32 latest_value) (f32 lo) (f32 hi)
                  | EMBEDIDS_METRIC_TYPE_PERCENTAGE \<Rightarrow>
                      exceeds (check_min cfg) (check_max cfg) (f32 latest_value) (f32 lo) (f32 hi)
                  | EMBEDIDS_METRIC_TYPE_RATE \<Rightarrow>
                      exceeds (check_min cfg) (check_max cfg) (f32 latest_value) (f32 lo) (f32 hi)
                  | EMBEDIDS_METRIC_TYPE_DOUBLE \<Rightarrow>
                      exceeds (check_min cfg) (check_max cfg) (f64 latest_value) (f64 lo) (f64 hi)
                  | EMBEDIDS_METRIC_TYPE_BOOL \<Rightarrow> EMBEDIDS_OK
                  | EMBEDIDS_METRIC_TYPE_ENUM \<Rightarrow>
                      exceeds (check_min cfg) (check_max cfg)
                        (enum_val latest_value) (enum_val lo) (enum_val hi)))"

definition run_trend_algorithm ::
  "embedids_metric_t \<Rightarrow> embedids_trend_config_t \<Rightarrow> embedids_result_t" where
  "run_trend_algorithm m cfg =
     (if current_size m < window_size cfg \<or> window_size cfg < 2 then EMBEDIDS_OK
      else EMBEDIDS_OK)"

subsection \<open>embedids_init and embedids_add_datapoint\<close>

definition embedids_init ::
  "'h embedids_context_t option \<Rightarrow> 'h embedids_system_config_t option
     \<Rightarrow> embedids_result_t \<times> 'h embedids_context_t option" where
  "embedids_init ctx cfg =
     (case ctx of
        None \<Rightarrow> (EMBEDIDS_ERROR_INVALID_PARAM, None)
      | Some c \<Rightarrow>
          (case cfg of
             None \<Rightarrow> (EMBEDIDS_ERROR_INVALID_PARAM, Some c)
           | Some sc \<Rightarrow> (EMBEDIDS_OK, Some (c\<lparr>system_config := Some sc, initialized := True\<rparr>))))"

text \<open>
  The last two blocks of \<open>embedids_add_datapoint\<close> (``add data point to circular buffer'' and
  ``update buffer state''), on the metric found. The two stores into
  \<open>metric->history[metric->write_index]\<close> are undefined outside the buffer, and
  \<open>% metric->max_history_size\<close> is undefined for a capacity of 0.
\<close>

definition store_datapoint ::
  "embedids_metric_t \<Rightarrow> embedids_metric_value_t \<Rightarrow> 64 word \<Rightarrow> embedids_metric_t option" where
  "store_datapoint m v ts =
     (case history m of
        None \<Rightarrow> None
      | Some buf \<Rightarrow>
          if \<not> unat (write_index m) < length buf then None
          else
            let buf' = buf[unat (write_index m) := \<lparr>value = v, timestamp_ms = ts\<rparr>] in
            if max_history_size m = 0 then None
            else
              let wi' = (write_index m + 1) mod max_history_size m;
                  cs' = (if current_size m < max_history_size m
                         then current_size m + 1 else current_size m)
              in Some (m\<lparr>history := Some buf', current_size := cs', write_index := wi'\<rparr>))"

definition embedids_add_datapoint ::
  "'h embedids_context_t option \<Rightarrow> string option \<Rightarrow> embedids_metric_value_t \<Rightarrow> 64 word
     \<Rightarrow> (embedids_result_t \<times> 'h embedids_context_t option) option" where
  "embedids_add_datapoint ctx metric_name v ts =
     (case ctx of
        None \<Rightarrow> Some (EMBEDIDS_ERROR_NOT_INITIALIZED, None)
      | Some c \<Rightarrow>
          if \<not> initialized c then Some (EMBEDIDS_ERROR_NOT_INITIALIZED, Some c)
          else
           (case metric_name of
              None \<Rightarrow> Some (EMBEDIDS_ERROR_INVALID_PARAM, Some c)
            | Some nm \<Rightarrow>
               (case find_metric_config (Some c) nm of
                  None \<Rightarrow> None
                | Some None \<Rightarrow> Some (EMBEDIDS_ERROR_METRIC_NOT_FOUND, Some c)
                | Some (Some i) \<Rightarrow>
                   (case deref_config c i of
                      None \<Rightarrow> None
                    | Some mc \<Rightarrow>
                        let m = metric mc in
                        if \<not> embedids_metric_t.enabled m
                        then Some (EMBEDIDS_ERROR_METRIC_DISABLED, Some c)
                        else if history m = None
                        then Some (EMBEDIDS_ERROR_INVALID_PARAM, Some c)
                        else
                         (case store_datapoint m v ts of
                            None \<Rightarrow> None
                          | Some m' \<Rightarrow> Some (EMBEDIDS_OK, Some (store_metric c i m')))))))"

subsection \<open>embedids_analyze_metric\<close>

text \<open>The \<open>switch (algorithm->type)\<close> of the loop body.\<close>

definition run_algorithm ::
  "embedids_metric_t \<Rightarrow> 'h embedids_algorithm_t \<Rightarrow> 'h \<Rightarrow> (embedids_result_t \<times> 'h) option" where
  "run_algorithm m algorithm h =
     (let cfg = embedids_algorithm_t.config algorithm in
      case embedids_algorithm_t.type algorithm of
        EMBEDIDS_ALGORITHM_THRESHOLD \<Rightarrow>
          (case run_threshold_algorithm m (threshold cfg) of
             None \<Rightarrow> None
           | Some r \<Rightarrow> Some (r, h))
      | EMBEDIDS_ALGORITHM_TREND \<Rightarrow> Some (run_trend_algorithm m (trend cfg), h)
      | EMBEDIDS_ALGORITHM_CUSTOM \<Rightarrow>
          (case function (custom cfg) of
             None \<Rightarrow> Some (EMBEDIDS_OK, h)
           | Some f \<Rightarrow>
               Some (f m (embedids_custom_config_t.config (custom cfg)) (context (custom cfg)) h)))"

function analyze_metric_loop ::
  "'h embedids_metric_config_t \<Rightarrow> nat \<Rightarrow> 'h \<Rightarrow> (embedids_result_t \<times> 'h) option" where
  "analyze_metric_loop mc i h =
     (if i < unat (num_algorithms mc) then
        (if i < length (algorithms mc) then
           let algorithm = algorithms mc ! i in
           if \<not> embedids_algorithm_t.enabled algorithm then analyze_metric_loop mc (i + 1) h
           else
             (case run_algorithm (metric mc) algorithm h of
                None \<Rightarrow> None
              | Some (result, h') \<Rightarrow>
                  if result \<noteq> EMBEDIDS_OK then Some (result, h')
                  else analyze_metric_loop mc (i + 1) h')
         else None)
      else Some (EMBEDIDS_OK, h))"
  by pat_completeness auto

termination
  by (relation "measure (\<lambda>(mc, i, h). unat (num_algorithms mc) - i)") auto

declare analyze_metric_loop.simps [simp del]

definition embedids_analyze_metric ::
  "'h embedids_context_t option \<Rightarrow> string option \<Rightarrow> 'h
     \<Rightarrow> (embedids_result_t \<times> 'h embedids_context_t option \<times> 'h) option" where
  "embedids_analyze_metric ctx metric_name h =
     (case ctx of
        None \<Rightarrow> Some (EMBEDIDS_ERROR_NOT_INITIALIZED, None, h)
      | Some c \<Rightarrow>
          if \<not> initialized c then Some (EMBEDIDS_ERROR_NOT_INITIALIZED, Some c, h)
          else
           (case metric_name of
              None \<Rightarrow> Some (EMBEDIDS_ERROR_INVALID_PARAM, Some c, h)
            | Some nm \<Rightarrow>
               (case find_metric_config (Some c) nm of
                  None \<Rightarrow> None
                | Some None \<Rightarrow> Some (EMBEDIDS_ERROR_METRIC_NOT_FOUND, Some c, h)
                | Some (Some i) \<Rightarrow>
                   (case deref_config c i of
                      None \<Rightarrow> None
                    | Some mc \<Rightarrow>
                        if \<not> embedids_metric_t.enabled (metric mc)
                        then Some (EMBEDIDS_ERROR_METRIC_DISABLED, Some c, h)
                        else
                          (case analyze_metric_loop mc 0 h of
                             None \<Rightarrow> None
                           | Some (result, h') \<Rightarrow> Some (result, Some c, h'))))))"

subsection \<open>embedids_analyze_all\<close>

function analyze_all_loop ::
  "'h embedids_context_t \<Rightarrow> nat \<Rightarrow> 'h
     \<Rightarrow> (embedids_result_t \<times> 'h embedids_context_t option \<times> 'h) option" where
  "analyze_all_loop c i h =
     (case system_config c of
        None \<Rightarrow> None
      | Some sc \<Rightarrow>
          if i < unat (num_active_metrics sc) then
            (if i < length (metrics sc) then
               let mc = metrics sc ! i in
               if embedids_metric_t.enabled (metric mc) then
                 (case embedids_analyze_metric (Some c) (Some (name (metric mc))) h of
                    None \<Rightarrow> None
                  | Some (result, ctx', h') \<Rightarrow>
                      if result \<noteq> EMBEDIDS_OK then Some (result, ctx', h')
                      else (case ctx' of
                              None \<Rightarrow> None
                            | Some c' \<Rightarrow> analyze_all_loop c' (i + 1) h'))
               else analyze_all_loop c (i + 1) h
             else None)
          else Some (EMBEDIDS_OK, Some c, h))"
  by pat_completeness auto

termination
  by (relation "measure (\<lambda>(c, i, h).
         (case system_config c of None \<Rightarrow> 0 | Some sc \<Rightarrow> unat (num_active_metrics sc)) - i)")
     (auto simp: embedids_analyze_metric_def split: if_splits option.splits)

declare analyze_all_loop.simps [simp del]

definition embedids_analyze_all ::
  "'h embedids_context_t option \<Rightarrow> 'h
     \<Rightarrow> (embedids_result_t \<times> 'h embedids_context_t option \<times> 'h) option" where
  "embedids_analyze_all ctx h =
     (case ctx of
        None \<Rightarrow> Some (EMBEDIDS_ERROR_NOT_INITIALIZED, None, h)
      | Some c \<Rightarrow>
          if \<not> initialized c then Some (EMBEDIDS_ERROR_NOT_INITIALIZED, Some c, h)
          else analyze_all_loop c 0 h)"

subsection \<open>embedids_cleanup and embedids_is_initialized\<close>

definition embedids_cleanup :: "'h embedids_context_t option \<Rightarrow> 'h embedids_context_t option" where
  "embedids_cleanup ctx =
     (case ctx of
        None \<Rightarrow> None
      | Some c \<Rightarrow> Some (c\<lparr>system_config := None, initialized := False\<rparr>))"

definition embedids_is_initialized :: "'h embedids_context_t option \<Rightarrow> bool" where
  "embedids_is_initialized ctx = (case ctx of None \<Rightarrow> False | Some c \<Rightarrow> initialized c)"

subsection \<open>embedids_get_trend\<close>

text \<open>
  The two \<open>switch (metric->type)\<close> statements of the function convert a stored value to
  \<open>float\<close>; \<open>None\<close> is their \<open>default\<close> branch. The conversion \<open>(float)\<close> of an integer is
  taken exact: it is the code's for the integers a \<open>float\<close> holds exactly (all those below
  \<open>2^24\<close>), and the code rounds the others.
\<close>

definition value_as_float :: "embedids_metric_type_t \<Rightarrow> embedids_metric_value_t \<Rightarrow> real option" where
  "value_as_float t v =
     (case t of
        EMBEDIDS_METRIC_TYPE_UINT32 \<Rightarrow> Some (real (unat (u32 v)))
      | EMBEDIDS_METRIC_TYPE_UINT64 \<Rightarrow> Some (real (unat (u64 v)))
      | EMBEDIDS_METRIC_TYPE_FLOAT \<Rightarrow> Some (f32 v)
      | EMBEDIDS_METRIC_TYPE_PERCENTAGE \<Rightarrow> Some (f32 v)
      | EMBEDIDS_METRIC_TYPE_RATE \<Rightarrow> Some (f32 v)
      | EMBEDIDS_METRIC_TYPE_DOUBLE \<Rightarrow> None
      | EMBEDIDS_METRIC_TYPE_BOOL \<Rightarrow> None
      | EMBEDIDS_METRIC_TYPE_ENUM \<Rightarrow> None)"

definition supported_type :: "embedids_metric_type_t \<Rightarrow> bool" where
  "supported_type t =
     (t = EMBEDIDS_METRIC_TYPE_UINT32 \<or> t = EMBEDIDS_METRIC_TYPE_UINT64 \<or>
      t = EMBEDIDS_METRIC_TYPE_FLOAT \<or> t = EMBEDIDS_METRIC_TYPE_PERCENTAGE \<or>
      t = EMBEDIDS_METRIC_TYPE_RATE)"

text \<open>
  The loop \<open>for (uint32_t i = 1; i < num_points; i++)\<close>. Its result \<open>Some None\<close> is the
  return from inside the loop (the \<open>default\<close> branch, trend Stable); \<open>Some (Some (s, n))\<close> is
  the normal exit with \<open>sum_change = s\<close> and \<open>changes = n\<close>. The subtraction and the
  accumulation are those of the real numbers: they are the code's on inputs whose
  differences and sums a \<open>float\<close> holds exactly, and the code rounds the others.
\<close>

function trend_loop ::
  "embedids_metric_t \<Rightarrow> 32 word \<Rightarrow> 32 word \<Rightarrow> nat \<Rightarrow> real \<Rightarrow> 32 word
     \<Rightarrow> (real \<times> 32 word) option option" where
  "trend_loop m start_index num_points i sum_change changes =
     (if i < unat num_points then
        (if max_history_size m = 0 then None
         else
           let curr_idx = (start_index + of_nat i) mod max_history_size m;
               prev_idx = (start_index + of_nat i - 1) mod max_history_size m
           in
           if supported_type (embedids_metric_t.type m) then
             (case array_read (history m) (unat curr_idx) of
                None \<Rightarrow> None
              | Some curr_dp \<Rightarrow>
                 (case array_read (history m) (unat prev_idx) of
                    None \<Rightarrow> None
                  | Some prev_dp \<Rightarrow>
                     (case value_as_float (embedids_metric_t.type m) (value curr_dp) of
                        None \<Rightarrow> Some None
                      | Some curr_val \<Rightarrow>
                         (case value_as_float (embedids_metric_t.type m) (value prev_dp) of
                            None \<Rightarrow> Some None
                          | Some prev_val \<Rightarrow>
                              trend_loop m start_index num_points (i + 1)
                                (sum_change + (curr_val - prev_val)) (changes + 1)))))
           else Some None)
      else Some (Some (sum_change, changes)))"
  by pat_completeness auto

termination
  by (relation "measure (\<lambda>(m, start_index, num_points, i, sum_change, changes).
         unat num_points - i)") auto

declare trend_loop.simps [simp del]

definition classify_trend :: "real \<Rightarrow> real \<Rightarrow> embedids_trend_t" where
  "classify_trend avg_change first_val =
     (let threshold0 = \<bar>first_val\<bar> * 0.05;
          threshold = (if threshold0 < 1.0 then 1.0 else threshold0)
      in if \<bar>avg_change\<bar> < threshold then EMBEDIDS_TREND_STABLE
         else if avg_change > 0 then EMBEDIDS_TREND_INCREASING
         else EMBEDIDS_TREND_DECREASING)"

text \<open>
  The part of the function after the checks of its arguments, on the metric found. The
  result is the value stored into \<open>*trend\<close>; every path through it returns EMBEDIDS_OK.
\<close>

definition metric_trend :: "embedids_metric_t \<Rightarrow> embedids_trend_t option" where
  "metric_trend m =
     (if current_size m < 2 then Some EMBEDIDS_TREND_STABLE
      else
        let start_index = (if current_size m = max_history_size m then write_index m else 0);
            num_points = (if current_size m < 3 then current_size m else 3)
        in
        (case trend_loop m start_index num_points 1 0 0 of
           None \<Rightarrow> None
         | Some None \<Rightarrow> Some EMBEDIDS_TREND_STABLE
         | Some (Some (sum_change, changes)) \<Rightarrow>
             if changes = 0 then Some EMBEDIDS_TREND_STABLE
             else
               let avg_change = sum_change / real (unat changes);
                   first_idx = (if current_size m = max_history_size m then write_index m else 0)
               in
               if supported_type (embedids_metric_t.type m) then
                 (case array_read (history m) (unat first_idx) of
                    None \<Rightarrow> None
                  | Some first_dp \<Rightarrow>
                     (case value_as_float (embedids_metric_t.type m) (value first_dp) of
                        None \<Rightarrow> Some (classify_trend avg_change 1.0)
                      | Some first_val \<Rightarrow> Some (classify_trend avg_change first_val)))
               else Some (classify_trend avg_change 1.0)))"

text \<open>
  The argument \<open>trend\<close> is the output pointer: \<open>None\<close> is NULL, \<open>Some t\<close> a pointer to a
  variable holding \<open>t\<close>. The last component of the result is that variable after the call.
\<close>

definition embedids_get_trend ::
  "'h embedids_context_t option \<Rightarrow> string option \<Rightarrow> embedids_trend_t option
     \<Rightarrow> (embedids_result_t \<times> 'h embedids_context_t option \<times> embedids_trend_t option) option" where
  "embedids_get_trend ctx metric_name trend_out =
     (case ctx of
        None \<Rightarrow> Some (EMBEDIDS_ERROR_NOT_INITIALIZED, None, trend_out)
      | Some c \<Rightarrow>
          if \<not> initialized c then Some (EMBEDIDS_ERROR_NOT_INITIALIZED, Some c, trend_out)
          else
           (case metric_name of
              None \<Rightarrow> Some (EMBEDIDS_ERROR_INVALID_PARAM, Some c, trend_out)
            | Some nm \<Rightarrow>
               (case trend_out of
                  None \<Rightarrow> Some (EMBEDIDS_ERROR_INVALID_PARAM, Some c, trend_out)
                | Some t0 \<Rightarrow>
                   (case find_metric_config (Some c) nm of
                      None \<Rightarrow> None
                    | Some None \<Rightarrow> Some (EMBEDIDS_ERROR_METRIC_NOT_FOUND, Some c, trend_out)
                    | Some (Some i) \<Rightarrow>
                       (case deref_config c i of
                          None \<Rightarrow> None
                        | Some mc \<Rightarrow>
                            if \<not> embedids_metric_t.enabled (metric mc)
                            then Some (EMBEDIDS_ERROR_METRIC_DISABLED, Some c, trend_out)
                            else
                              (case metric_trend (metric mc) of
                                 None \<Rightarrow> None
                               | Some t \<Rightarrow> Some (EMBEDIDS_OK, Some c, Some t)))))))"

subsection \<open>embedids_reset_all_metrics\<close>

definition zero_datapoint :: embedids_metric_datapoint_t where
  "zero_datapoint =
     \<lparr>value = \<lparr>f32 = 0, f64 = 0, u32 = 0, u64 = 0, boolean = False, enum_val = 0\<rparr>,
      timestamp_ms = 0\<rparr>"

text \<open>
  \<open>memset(metric->history, 0, metric->max_history_size * sizeof(...))\<close> clears the first
  \<open>max_history_size\<close> elements of the buffer and is undefined when the buffer is shorter.
\<close>

definition reset_metric :: "embedids_metric_t \<Rightarrow> embedids_metric_t option" where
  "reset_metric m =
     (let m' = m\<lparr>current_size := 0, write_index := 0\<rparr> in
      case history m' of
        None \<Rightarrow> Some m'
      | Some buf \<Rightarrow>
          if unat (max_history_size m') \<le> length buf
          then Some (m'\<lparr>history := Some (replicate (unat (max_history_size m')) zero_datapoint
                                          @ drop (unat (max_history_size m')) buf)\<rparr>)
          else None)"

function reset_loop :: "'h embedids_system_config_t \<Rightarrow> nat \<Rightarrow> 'h embedids_system_config_t option" where
  "reset_loop sc i =
     (if i < unat (num_active_metrics sc) then
        (if i < length (metrics sc) then
           (case reset_metric (metric (metrics sc ! i)) of
              None \<Rightarrow> None
            | Some m' \<Rightarrow>
                reset_loop (sc\<lparr>metrics := (metrics sc)[i := (metrics sc ! i)\<lparr>metric := m'\<rparr>]\<rparr>)
                  (i + 1))
         else None)
      else Some sc)"
  by pat_completeness auto

termination
  by (relation "measure (\<lambda>(sc, i). unat (num_active_metrics sc) - i)") auto

declare reset_loop.simps [simp del]

definition embedids_reset_all_metrics ::
  "'h embedids_context_t option \<Rightarrow> (embedids_result_t \<times> 'h embedids_context_t option) option" where
  "embedids_reset_all_metrics ctx =
     (case ctx of
        None \<Rightarrow> Some (EMBEDIDS_ERROR_NOT_INITIALIZED, None)
      | Some c \<Rightarrow>
          if \<not> initialized c then Some (EMBEDIDS_ERROR_NOT_INITIALIZED, Some c)
          else
           (case system_config c of
              None \<Rightarrow> None
            | Some sc \<Rightarrow>
               (case reset_loop sc 0 of
                  None \<Rightarrow> None
                | Some sc' \<Rightarrow> Some (EMBEDIDS_OK, Some (c\<lparr>system_config := Some sc'\<rparr>)))))"

section \<open>Specification-level definitions and concrete inputs\<close>

subsection \<open>Contexts used as concrete inputs\<close>

definition zeroed_context :: "unit embedids_context_t" where
  "zeroed_context = \<lparr>system_config = None, initialized = False\<rparr>"

definition zero_value :: embedids_metric_value_t where
  "zero_value = \<lparr>f32 = 0, f64 = 0, u32 = 0, u64 = 0, boolean = False, enum_val = 0\<rparr>"

text \<open>
  The value \<open>{.f32 = x}\<close> of a sample of a metric of type FLOAT, PERCENTAGE or RATE. Only the
  member \<open>f32\<close> is read for such a metric. The other members are zero here; in C they are
  the bytes of the float read at another type, so \<open>float_value\<close> is not a sample of a
  metric of another type.
\<close>

definition float_value :: "real \<Rightarrow> embedids_metric_value_t" where
  "float_value x = zero_value\<lparr>f32 := x\<rparr>"

subsection \<open>Metric lookup\<close>

text \<open>
  The string a character array denotes: its characters up to the first NUL.
\<close>

definition c_string :: "string \<Rightarrow> string" where
  "c_string s = takeWhile (\<lambda>c. c \<noteq> CHR 0x00) s"

text \<open>
  The comparison of the specification: the stored name and the requested name agree, byte
  for byte, on their first EMBEDIDS_MAX_METRIC_NAME_LEN characters.
\<close>

definition name_matches :: "'h embedids_metric_config_t \<Rightarrow> string \<Rightarrow> bool" where
  "name_matches mc metric_name =
     (take EMBEDIDS_MAX_METRIC_NAME_LEN (c_string (name (metric mc)))
        = take EMBEDIDS_MAX_METRIC_NAME_LEN (c_string metric_name))"

text \<open>A metric as a configuration helper leaves it: empty history of the given capacity.\<close>

definition fresh_metric :: "string \<Rightarrow> embedids_metric_type_t \<Rightarrow> nat \<Rightarrow> embedids_metric_t" where
  "fresh_metric nm t capacity =
     \<lparr>name = nm, type = t, history = Some (replicate capacity zero_datapoint),
      max_history_size = of_nat capacity, current_size = 0, write_index = 0, enabled = True\<rparr>"

definition context_of :: "'h embedids_metric_config_t list \<Rightarrow> 'h embedids_context_t" where
  "context_of mcs =
     \<lparr>system_config = Some \<lparr>metrics = mcs, max_metrics = of_nat (length mcs),
                              num_active_metrics = of_nat (length mcs), user_context = 0\<rparr>,
      initialized = True\<rparr>"

definition long_name_context :: "unit embedids_context_t" where
  "long_name_context =
     context_of
       [\<lparr>metric = fresh_metric ''cpu_usage_core0'' EMBEDIDS_METRIC_TYPE_FLOAT 4,
         algorithms = [], num_algorithms = 0\<rparr>,
        \<lparr>metric = fresh_metric ''cpu_usage_of_the_first_processor'' EMBEDIDS_METRIC_TYPE_FLOAT 4,
         algorithms = [], num_algorithms = 0\<rparr>,
        \<lparr>metric = fresh_metric ''cpu_usage_of_the_first_processor'' EMBEDIDS_METRIC_TYPE_UINT32 4,
         algorithms = [], num_algorithms = 0\<rparr>]"

subsection \<open>The history ring buffer\<close>

text \<open>
  The invariants of section 3 of the specification: the buffer has \<open>max_history_size\<close>
  slots, the write cursor is below the capacity and the current size does not exceed it.
\<close>

definition metric_wf :: "embedids_metric_t \<Rightarrow> bool" where
  "metric_wf m =
     (case history m of
        None \<Rightarrow> False
      | Some buf \<Rightarrow>
          length buf = unat (max_history_size m)
          \<and> write_index m < max_history_size m
          \<and> current_size m \<le> max_history_size m)"

text \<open>
  A metric filled from the empty state keeps its cursor equal to its size until the buffer
  is full; \<open>samples\<close> then lists the retained data points from the oldest to the newest.
\<close>

definition ring_invar :: "embedids_metric_t \<Rightarrow> bool" where
  "ring_invar m =
     (metric_wf m
      \<and> (current_size m = max_history_size m \<or> write_index m = current_size m))"

definition samples :: "embedids_metric_t \<Rightarrow> embedids_metric_datapoint_t list" where
  "samples m =
     (case history m of
        None \<Rightarrow> []
      | Some buf \<Rightarrow>
          if current_size m = max_history_size m
          then drop (unat (write_index m)) buf @ take (unat (write_index m)) buf
          else take (unat (current_size m)) buf)"

text \<open>Feeding a metric a sequence of values with their timestamps; every call must return Ok.\<close>

fun add_datapoints ::
  "'h embedids_context_t \<Rightarrow> string \<Rightarrow> (embedids_metric_value_t \<times> 64 word) list
     \<Rightarrow> 'h embedids_context_t option" where
  "add_datapoints c nm [] = Some c"
| "add_datapoints c nm ((v, ts) # rest) =
     (case embedids_add_datapoint (Some c) (Some nm) v ts of
        None \<Rightarrow> None
      | Some (r, ctx') \<Rightarrow>
          if r = EMBEDIDS_OK
          then (case ctx' of None \<Rightarrow> None | Some c' \<Rightarrow> add_datapoints c' nm rest)
          else None)"

definition float_datapoint :: "real \<Rightarrow> 64 word \<Rightarrow> embedids_metric_datapoint_t" where
  "float_datapoint x ts = \<lparr>value = float_value x, timestamp_ms = ts\<rparr>"

definition small_buffer_context :: "unit embedids_context_t" where
  "small_buffer_context =
     context_of [\<lparr>metric = fresh_metric ''small_buffer'' EMBEDIDS_METRIC_TYPE_FLOAT 3,
                  algorithms = [], num_algorithms = 0\<rparr>]"

definition small_buffer_final :: "unit embedids_metric_config_t" where
  "small_buffer_final =
     \<lparr>metric =
        \<lparr>name = ''small_buffer'', type = EMBEDIDS_METRIC_TYPE_FLOAT,
         history = Some [float_datapoint 3 4000, float_datapoint 4 5000, float_datapoint 2 3000],
         max_history_size = 3, current_size = 3, write_index = 2, enabled = True\<rparr>,
      algorithms = [], num_algorithms = 0\<rparr>"

subsection \<open>Metrics that cannot accept data\<close>

definition null_history_context :: "unit embedids_context_t" where
  "null_history_context =
     context_of [\<lparr>metric = (fresh_metric ''cpu_usage'' EMBEDIDS_METRIC_TYPE_FLOAT 3)
                             \<lparr>history := None\<rparr>,
                  algorithms = [], num_algorithms = 0\<rparr>]"

text \<open>
  A metric whose \<open>history\<close> points to a buffer of three slots and whose \<open>max_history_size\<close>
  is 0.
\<close>

definition zero_capacity_context :: "unit embedids_context_t" where
  "zero_capacity_context =
     context_of [\<lparr>metric = (fresh_metric ''cpu_usage'' EMBEDIDS_METRIC_TYPE_FLOAT 3)
                             \<lparr>max_history_size := 0\<rparr>,
                  algorithms = [], num_algorithms = 0\<rparr>]"

subsection \<open>The built-in Threshold algorithm\<close>

text \<open>
  The comparison of the specification: strict, on the field the metric's declared type
  selects; a boolean metric compares nothing. A bound whose check flag is off is not
  evaluated.
\<close>

definition strictly_below ::
  "embedids_metric_type_t \<Rightarrow> embedids_metric_value_t \<Rightarrow> embedids_metric_value_t \<Rightarrow> bool" where
  "strictly_below t a b =
     (case t of
        EMBEDIDS_METRIC_TYPE_UINT32 \<Rightarrow> u32 a < u32 b
      | EMBEDIDS_METRIC_TYPE_UINT64 \<Rightarrow> u64 a < u64 b
      | EMBEDIDS_METRIC_TYPE_FLOAT \<Rightarrow> f32 a < f32 b
      | EMBEDIDS_METRIC_TYPE_PERCENTAGE \<Rightarrow> f32 a < f32 b
      | EMBEDIDS_METRIC_TYPE_RATE \<Rightarrow> f32 a < f32 b
      | EMBEDIDS_METRIC_TYPE_DOUBLE \<Rightarrow> f64 a < f64 b
      | EMBEDIDS_METRIC_TYPE_BOOL \<Rightarrow> False
      | EMBEDIDS_METRIC_TYPE_ENUM \<Rightarrow> enum_val a < enum_val b)"

definition violates_bounds ::
  "embedids_metric_type_t \<Rightarrow> embedids_threshold_config_t \<Rightarrow> embedids_metric_value_t \<Rightarrow> bool" where
  "violates_bounds t cfg v =
     ((check_min cfg \<and> strictly_below t v (min_threshold cfg))
      \<or> (check_max cfg \<and> strictly_below t (max_threshold cfg) v))"

definition threshold_verdict ::
  "embedids_metric_type_t \<Rightarrow> embedids_threshold_config_t \<Rightarrow> embedids_metric_value_t
     \<Rightarrow> embedids_result_t" where
  "threshold_verdict t cfg v =
     (if violates_bounds t cfg v then EMBEDIDS_ERROR_THRESHOLD_EXCEEDED else EMBEDIDS_OK)"

text \<open>The slot before the write cursor, modulo the capacity.\<close>

definition latest_slot :: "embedids_metric_t \<Rightarrow> nat" where
  "latest_slot m =
     (unat (write_index m) + unat (max_history_size m) - 1) mod unat (max_history_size m)"

definition threshold_algorithm :: "real \<Rightarrow> real \<Rightarrow> 'h embedids_algorithm_t" where
  "threshold_algorithm lo hi =
     \<lparr>type = EMBEDIDS_ALGORITHM_THRESHOLD, enabled = True,
      config =
        \<lparr>threshold = \<lparr>min_threshold = float_value lo, max_threshold = float_value hi,
                       check_min = True, check_max = True\<rparr>,
         trend = \<lparr>window_size = 0, max_slope = 0, max_variance = 0,
                   expected_trend = EMBEDIDS_TREND_STABLE\<rparr>,
         custom = \<lparr>function = None, config = 0, context = 0\<rparr>\<rparr>\<rparr>"

definition bounded_context :: "unit embedids_context_t" where
  "bounded_context =
     context_of [\<lparr>metric = fresh_metric ''boundary_test'' EMBEDIDS_METRIC_TYPE_FLOAT 3,
                  algorithms = [threshold_algorithm 0 100], num_algorithms = 1\<rparr>]"

text \<open>Insert one float value into \<open>boundary_test\<close>, then analyze that metric.\<close>

definition insert_and_analyze :: "real \<Rightarrow> embedids_result_t option" where
  "insert_and_analyze x =
     (case add_datapoints bounded_context ''boundary_test'' [(float_value x, 1000)] of
        None \<Rightarrow> None
      | Some c' \<Rightarrow>
          map_option fst (embedids_analyze_metric (Some c') (Some ''boundary_test'') ()))"

subsection \<open>Fail-fast analysis\<close>

text \<open>
  The policy of the specification, on a list of items taken in stored order: the first item
  that does not pass ends the run with its result and the items after it are not evaluated;
  when every item passes (or there is none) the result is Ok. The host memory is threaded
  through the evaluations that take place.
\<close>

fun spec_fail_fast ::
  "('a \<Rightarrow> 'h \<Rightarrow> (embedids_result_t \<times> 'h) option) \<Rightarrow> 'a list \<Rightarrow> 'h
     \<Rightarrow> (embedids_result_t \<times> 'h) option" where
  "spec_fail_fast run [] h = Some (EMBEDIDS_OK, h)"
| "spec_fail_fast run (x # xs) h =
     (case run x h of
        None \<Rightarrow> None
      | Some (r, h') \<Rightarrow> if r = EMBEDIDS_OK then spec_fail_fast run xs h' else Some (r, h'))"

text \<open>The enabled algorithms of a metric, among the first \<open>num_algorithms\<close>, in stored order.\<close>

definition enabled_algorithms :: "'h embedids_metric_config_t \<Rightarrow> 'h embedids_algorithm_t list" where
  "enabled_algorithms mc =
     filter embedids_algorithm_t.enabled (take (unat (num_algorithms mc)) (algorithms mc))"

text \<open>The enabled metrics among the first \<open>num_active_metrics\<close>, in stored order.\<close>

definition enabled_metrics :: "'h embedids_system_config_t \<Rightarrow> 'h embedids_metric_config_t list" where
  "enabled_metrics sc =
     filter (\<lambda>mc. embedids_metric_t.enabled (metric mc))
       (take (unat (num_active_metrics sc)) (metrics sc))"

text \<open>
  The per-metric result of AnalyzeAll: the result of the call
  \<open>embedids_analyze_metric(context, config->metric.name)\<close>.
\<close>

definition analyze_by_name ::
  "'h embedids_context_t \<Rightarrow> 'h embedids_metric_config_t \<Rightarrow> 'h \<Rightarrow> (embedids_result_t \<times> 'h) option" where
  "analyze_by_name c mc h =
     map_option (\<lambda>(r, ctx', h'). (r, h'))
       (embedids_analyze_metric (Some c) (Some (name (metric mc))) h)"

definition returning ::
  "'h embedids_context_t \<Rightarrow> (embedids_result_t \<times> 'h) option
     \<Rightarrow> (embedids_result_t \<times> 'h embedids_context_t option \<times> 'h) option" where
  "returning c res = map_option (\<lambda>(r, h'). (r, Some c, h')) res"

text \<open>
  The sweep of the specification read on the metrics themselves: the fail-fast run, over the
  enabled active metrics in stored order, of the fail-fast run of each metric's own enabled
  algorithms. A disabled metric takes no part in it.
\<close>

definition spec_analyze_all ::
  "'h embedids_system_config_t \<Rightarrow> 'h \<Rightarrow> (embedids_result_t \<times> 'h) option" where
  "spec_analyze_all sc h =
     spec_fail_fast
       (\<lambda>mc. spec_fail_fast (run_algorithm (metric mc)) (enabled_algorithms mc))
       (enabled_metrics sc) h"

text \<open>
  Two metrics: \<open>metric1\<close>, disabled, whose only algorithm would reject every positive value,
  and \<open>metric2\<close> with three Threshold algorithms: the first disabled (upper bound 10), then
  upper bounds 50 and 60. The arguments are the history and the number of samples of
  \<open>metric2\<close>.
\<close>

definition sweep_context ::
  "embedids_metric_datapoint_t list \<Rightarrow> 32 word \<Rightarrow> 'h embedids_context_t" where
  "sweep_context buf n =
     context_of
       [\<lparr>metric = (fresh_metric ''metric1'' EMBEDIDS_METRIC_TYPE_FLOAT 3)
                    \<lparr>embedids_metric_t.enabled := False\<rparr>,
         algorithms = [threshold_algorithm 0 0], num_algorithms = 1\<rparr>,
        \<lparr>metric = (fresh_metric ''metric2'' EMBEDIDS_METRIC_TYPE_FLOAT 3)
                    \<lparr>history := Some buf, current_size := n, write_index := n\<rparr>,
         algorithms = [(threshold_algorithm 0 10)\<lparr>embedids_algorithm_t.enabled := False\<rparr>,
                       threshold_algorithm 0 50,
                       threshold_algorithm 0 60],
         num_algorithms = 3\<rparr>]"

text \<open>
  The call by name matters when two active metrics carry the same name: the second one is
  analyzed as the first. Here the first is disabled and the second, enabled, has no
  algorithm at all.
\<close>

definition duplicate_name_context :: "unit embedids_context_t" where
  "duplicate_name_context =
     context_of
       [\<lparr>metric = (fresh_metric ''temperature'' EMBEDIDS_METRIC_TYPE_FLOAT 3)
                    \<lparr>embedids_metric_t.enabled := False\<rparr>,
         algorithms = [], num_algorithms = 0\<rparr>,
        \<lparr>metric = fresh_metric ''temperature'' EMBEDIDS_METRIC_TYPE_FLOAT 3,
         algorithms = [], num_algorithms = 0\<rparr>]"

subsection \<open>Analysis with built-in algorithms only\<close>

definition builtin_algorithm :: "'h embedids_algorithm_t \<Rightarrow> bool" where
  "builtin_algorithm a =
     (embedids_algorithm_t.type a = EMBEDIDS_ALGORITHM_THRESHOLD
      \<or> embedids_algorithm_t.type a = EMBEDIDS_ALGORITHM_TREND)"

text \<open>Every algorithm in use, of every active metric, is of kind Threshold or Trend.\<close>

definition builtin_only :: "'h embedids_context_t \<Rightarrow> bool" where
  "builtin_only c =
     (case system_config c of
        None \<Rightarrow> True
      | Some sc \<Rightarrow>
          list_all
            (\<lambda>mc. list_all builtin_algorithm (take (unat (num_algorithms mc)) (algorithms mc)))
            (take (unat (num_active_metrics sc)) (metrics sc)))"

text \<open>
  A context whose counts do not exceed its arrays and whose active metrics satisfy the
  invariants of the data model.
\<close>

definition config_wf :: "'h embedids_metric_config_t \<Rightarrow> bool" where
  "config_wf mc =
     (unat (num_algorithms mc) \<le> length (algorithms mc) \<and> metric_wf (metric mc))"

definition context_wf :: "'h embedids_context_t \<Rightarrow> bool" where
  "context_wf c =
     (case system_config c of
        None \<Rightarrow> False
      | Some sc \<Rightarrow>
          unat (num_active_metrics sc) \<le> length (metrics sc)
          \<and> list_all config_wf (take (unat (num_active_metrics sc)) (metrics sc)))"

subsection \<open>The trend heuristic of GetTrend\<close>

text \<open>
  The heuristic of the specification, on the values of a window taken from the oldest to the
  newest: fewer than two values are Stable; otherwise the average of the consecutive
  differences is classified against \<open>max (|firstValue| * 0.05) 1.0\<close>, where \<open>firstValue\<close> is
  the oldest value of the window.
\<close>

fun consecutive_differences :: "real list \<Rightarrow> real list" where
  "consecutive_differences (x # y # ys) = (y - x) # consecutive_differences (y # ys)"
| "consecutive_differences ys = []"

definition spec_trend_of :: "real list \<Rightarrow> embedids_trend_t" where
  "spec_trend_of window =
     (if length window < 2 then EMBEDIDS_TREND_STABLE
      else
        let avg_change = sum_list (consecutive_differences window) / real (length window - 1);
            first_value = hd window;
            threshold = max (\<bar>first_value\<bar> * 0.05) 1.0
        in if \<bar>avg_change\<bar> < threshold then EMBEDIDS_TREND_STABLE
           else if avg_change > 0 then EMBEDIDS_TREND_INCREASING
           else EMBEDIDS_TREND_DECREASING)"

text \<open>
  A stored data point as floating point (0 for the types the heuristic does not support),
  and the values a metric retains, oldest first.
\<close>

definition as_float :: "embedids_metric_type_t \<Rightarrow> embedids_metric_datapoint_t \<Rightarrow> real" where
  "as_float t d = (case value_as_float t (value d) of None \<Rightarrow> 0 | Some x \<Rightarrow> x)"

definition sample_values :: "embedids_metric_t \<Rightarrow> real list" where
  "sample_values m = map (as_float (embedids_metric_t.type m)) (samples m)"

text \<open>
  The window of the specification: at most the three most recent samples, from the oldest
  to the newest.
\<close>

definition spec_window :: "embedids_metric_t \<Rightarrow> real list" where
  "spec_window m = drop (length (sample_values m) - 3) (sample_values m)"

definition spec_get_trend :: "embedids_metric_t \<Rightarrow> embedids_trend_t" where
  "spec_get_trend m =
     (if supported_type (embedids_metric_t.type m) then spec_trend_of (spec_window m)
      else EMBEDIDS_TREND_STABLE)"

text \<open>The window the code reads: at most the three oldest retained samples.\<close>

definition oldest_window :: "embedids_metric_t \<Rightarrow> real list" where
  "oldest_window m = take 3 (sample_values m)"

definition trend_context ::
  "embedids_metric_datapoint_t list \<Rightarrow> 32 word \<Rightarrow> unit embedids_context_t" where
  "trend_context buf n =
     context_of
       [\<lparr>metric = (fresh_metric ''cpu_usage'' EMBEDIDS_METRIC_TYPE_FLOAT 10)
                    \<lparr>history := Some buf, current_size := n, write_index := n\<rparr>,
         algorithms = [], num_algorithms = 0\<rparr>]"

definition rising_then_flat :: "embedids_metric_datapoint_t list" where
  "rising_then_flat =
     [float_datapoint 10 1000, float_datapoint 20 2000, float_datapoint 30 3000,
      float_datapoint 30 4000, float_datapoint 30 5000,
      zero_datapoint, zero_datapoint, zero_datapoint, zero_datapoint, zero_datapoint]"

subsection \<open>Inputs for the Trend algorithm\<close>

definition trend_algorithm :: "32 word \<Rightarrow> real \<Rightarrow> 'h embedids_algorithm_t" where
  "trend_algorithm window slope =
     \<lparr>type = EMBEDIDS_ALGORITHM_TREND, enabled = True,
      config =
        \<lparr>threshold = \<lparr>min_threshold = zero_value, max_threshold = zero_value,
                       check_min = False, check_max = False\<rparr>,
         trend = \<lparr>window_size = window, max_slope = slope, max_variance = 0,
                   expected_trend = EMBEDIDS_TREND_STABLE\<rparr>,
         custom = \<lparr>function = None, config = 0, context = 0\<rparr>\<rparr>\<rparr>"

text \<open>
  A metric holding 10, 30, 50, 70, 90, with a Trend algorithm of window 5 and maximum
  slope 10.
\<close>

definition steep_context :: "unit embedids_context_t" where
  "steep_context =
     context_of
       [\<lparr>metric = (fresh_metric ''memory_usage'' EMBEDIDS_METRIC_TYPE_FLOAT 5)
                    \<lparr>history := Some [float_datapoint 10 1000, float_datapoint 30 2000,
                                      float_datapoint 50 3000, float_datapoint 70 4000,
                                      float_datapoint 90 5000],
                      current_size := 5, write_index := 0\<rparr>,
         algorithms = [trend_algorithm 5 10], num_algorithms = 1\<rparr>]"

section \<open>A fact used throughout\<close>

lemma embedids_analyze_metric_context:
  "embedids_analyze_metric (Some c) metric_name h = Some (result, ctx', h') \<Longrightarrow> ctx' = Some c"
  by (auto simp: embedids_analyze_metric_def split: if_splits option.splits)

section \<open>Guards on the context\<close>

lemma cleanup_not_initialized:
  "embedids_cleanup (Some c0) = Some c \<Longrightarrow> \<not> initialized c \<and> system_config c = None"
  by (auto simp: embedids_cleanup_def)

text \<open>
  C10. Every operation that takes a context accepts the NULL context. Cleanup does nothing,
  IsInitialized answers false, Init answers InvalidParam, and AddDataPoint, AnalyzeMetric,
  AnalyzeAll, GetTrend and ResetAllMetrics return NotInitialized, whatever their other
  arguments are; none of them runs into undefined behaviour, and the output variable of
  GetTrend and the host memory are left as they were.
\<close>

theorem null_context_accepted:
  "embedids_cleanup (None :: 'h embedids_context_t option) = None
   \<and> embedids_is_initialized (None :: 'h embedids_context_t option) = False
   \<and> embedids_add_datapoint (None :: 'h embedids_context_t option) metric_name v ts
       = Some (EMBEDIDS_ERROR_NOT_INITIALIZED, None)
   \<and> embedids_analyze_metric (None :: 'h embedids_context_t option) metric_name h
       = Some (EMBEDIDS_ERROR_NOT_INITIALIZED, None, h)
   \<and> embedids_analyze_all (None :: 'h embedids_context_t option) h
       = Some (EMBEDIDS_ERROR_NOT_INITIALIZED, None, h)
   \<and> embedids_get_trend (None :: 'h embedids_context_t option) metric_name trend_out
       = Some (EMBEDIDS_ERROR_NOT_INITIALIZED, None, trend_out)
   \<and> embedids_reset_all_metrics (None :: 'h embedids_context_t option)
       = Some (EMBEDIDS_ERROR_NOT_INITIALIZED, None)
   \<and> embedids_init (None :: 'h embedids_context_t option) cfg
       = (EMBEDIDS_ERROR_INVALID_PARAM, None)"
  by (simp add: embedids_cleanup_def embedids_is_initialized_def embedids_add_datapoint_def
      embedids_analyze_metric_def embedids_analyze_all_def embedids_get_trend_def
      embedids_reset_all_metrics_def embedids_init_def)

text \<open>
  C7. On a context whose \<open>initialized\<close> flag is false (a zeroed context, or one that
  Cleanup has just cleared), AddDataPoint, AnalyzeMetric, AnalyzeAll and ResetAllMetrics
  return NotInitialized, and the state after the call is the state before it: the context
  with everything reachable from it, and the host memory.
\<close>

theorem uninitialized_context_guard:
  assumes "\<not> initialized c"
  shows "embedids_add_datapoint (Some c) metric_name v ts
           = Some (EMBEDIDS_ERROR_NOT_INITIALIZED, Some c)
       \<and> embedids_analyze_metric (Some c) metric_name h
           = Some (EMBEDIDS_ERROR_NOT_INITIALIZED, Some c, h)
       \<and> embedids_analyze_all (Some c) h
           = Some (EMBEDIDS_ERROR_NOT_INITIALIZED, Some c, h)
       \<and> embedids_reset_all_metrics (Some c)
           = Some (EMBEDIDS_ERROR_NOT_INITIALIZED, Some c)"
  using assms
  by (simp add: embedids_add_datapoint_def embedids_analyze_metric_def
      embedids_analyze_all_def embedids_reset_all_metrics_def)

theorem uninitialized_context_guard_witness:
  "embedids_cleanup (Some (zeroed_context\<lparr>initialized := True\<rparr>)) = Some zeroed_context
   \<and> \<not> initialized zeroed_context
   \<and> embedids_add_datapoint (Some zeroed_context) (Some ''cpu_usage'') (float_value 42) 1000
       = Some (EMBEDIDS_ERROR_NOT_INITIALIZED, Some zeroed_context)
   \<and> embedids_analyze_metric (Some zeroed_context) (Some ''cpu_usage'') ()
       = Some (EMBEDIDS_ERROR_NOT_INITIALIZED, Some zeroed_context, ())
   \<and> embedids_analyze_all (Some zeroed_context) ()
       = Some (EMBEDIDS_ERROR_NOT_INITIALIZED, Some zeroed_context, ())
   \<and> embedids_reset_all_metrics (Some zeroed_context)
       = Some (EMBEDIDS_ERROR_NOT_INITIALIZED, Some zeroed_context)"
proof -
  have uninit: "\<not> initialized zeroed_context"
    by (simp add: zeroed_context_def)
  have cleaned: "embedids_cleanup (Some (zeroed_context\<lparr>initialized := True\<rparr>)) = Some zeroed_context"
    by (simp add: embedids_cleanup_def zeroed_context_def)
  show ?thesis
    using uninit cleaned
      uninitialized_context_guard [OF uninit, of "Some ''cpu_usage''" "float_value 42" 1000 "()"]
    by simp
qed

section \<open>Metric lookup\<close>

lemma of_char_zero_iff: "(of_char c :: nat) = 0 \<longleftrightarrow> c = CHR 0x00"
proof -
  have "(of_char (CHR 0x00) :: nat) = 0" by simp
  then show ?thesis by (metis of_char_eq_iff)
qed

lemma strncmp_eq_0_iff:
  "strncmp s1 s2 n = 0 \<longleftrightarrow> take n (c_string s1) = take n (c_string s2)"
  by (induction s1 s2 n rule: strncmp.induct) (auto simp: c_string_def of_char_zero_iff)

lemma strncmp_name_matches:
  "strncmp (name (metric mc)) nm EMBEDIDS_MAX_METRIC_NAME_LEN = 0 \<longleftrightarrow> name_matches mc nm"
  by (simp add: name_matches_def strncmp_eq_0_iff)

lemma find_metric_loop_first_match:
  assumes "unat (num_active_metrics sc) \<le> length (metrics sc)"
  shows "(\<exists>k. find_metric_loop sc nm i = Some (Some k) \<and> i \<le> k
             \<and> k < unat (num_active_metrics sc)
             \<and> name_matches (metrics sc ! k) nm
             \<and> (\<forall>j. i \<le> j \<and> j < k \<longrightarrow> \<not> name_matches (metrics sc ! j) nm))
       \<or> (find_metric_loop sc nm i = Some None
             \<and> (\<forall>j. i \<le> j \<and> j < unat (num_active_metrics sc)
                    \<longrightarrow> \<not> name_matches (metrics sc ! j) nm))"
  using assms
proof (induction sc nm i rule: find_metric_loop.induct)
  case (1 sc nm i)
  show ?case
  proof (cases "i < unat (num_active_metrics sc)")
    case False
    then have "find_metric_loop sc nm i = Some None"
      by (subst find_metric_loop.simps) simp
    with False show ?thesis by auto
  next
    case active: True
    with "1.prems" have inb: "i < length (metrics sc)" by simp
    show ?thesis
    proof (cases "name_matches (metrics sc ! i) nm")
      case True
      then have "find_metric_loop sc nm i = Some (Some i)"
        using active inb by (subst find_metric_loop.simps) (simp add: strncmp_name_matches)
      with True active show ?thesis by auto
    next
      case False
      then have step: "find_metric_loop sc nm i = find_metric_loop sc nm (i + 1)"
        using active inb by (subst find_metric_loop.simps) (simp add: strncmp_name_matches)
      have neq: "strncmp (name (metric (metrics sc ! i))) nm EMBEDIDS_MAX_METRIC_NAME_LEN \<noteq> 0"
        using False by (simp add: strncmp_name_matches)
      have here: "\<not> name_matches (metrics sc ! j) nm" if "i \<le> j" "j < i + 1" for j
        using that False by (cases "j = i") simp_all
      from "1.IH" [OF active inb neq "1.prems"] show ?thesis
      proof (elim disjE exE conjE)
        fix k
        assume k: "find_metric_loop sc nm (i + 1) = Some (Some k)" "i + 1 \<le> k"
          "k < unat (num_active_metrics sc)" "name_matches (metrics sc ! k) nm"
          "\<forall>j. i + 1 \<le> j \<and> j < k \<longrightarrow> \<not> name_matches (metrics sc ! j) nm"
        have "\<forall>j. i \<le> j \<and> j < k \<longrightarrow> \<not> name_matches (metrics sc ! j) nm"
          using k(5) here by (metis not_less)
        with k step show ?thesis by auto
      next
        assume n: "find_metric_loop sc nm (i + 1) = Some None"
          "\<forall>j. i + 1 \<le> j \<and> j < unat (num_active_metrics sc)
               \<longrightarrow> \<not> name_matches (metrics sc ! j) nm"
        have "\<forall>j. i \<le> j \<and> j < unat (num_active_metrics sc)
               \<longrightarrow> \<not> name_matches (metrics sc ! j) nm"
          using n(2) here by (metis not_less)
        with n step show ?thesis by auto
      qed
    qed
  qed
qed

text \<open>
  C8. Metric lookup, as AddDataPoint, AnalyzeMetric and GetTrend use it. When the active
  count does not exceed the metrics array, \<open>find_metric_config\<close> returns the first active
  metric, in stored order, whose stored name agrees with the requested name byte for byte
  (so case-sensitively) on the first EMBEDIDS_MAX_METRIC_NAME_LEN characters, and NULL when
  no active metric does. The comparison stops at that bound: the stored 32-character name
  \<open>cpu_usage_of_the_first_processor\<close> is matched by the different, longer name
  \<open>cpu_usage_of_the_first_processor_core_1\<close>, the first of the two metrics stored under that
  name is the one returned, and the same name in upper case matches nothing.
\<close>

theorem metric_lookup_bounded_compare:
  assumes "system_config c = Some sc"
    and "unat (num_active_metrics sc) \<le> length (metrics sc)"
  shows "((\<exists>k. find_metric_config (Some c) nm = Some (Some k)
              \<and> k < unat (num_active_metrics sc)
              \<and> name_matches (metrics sc ! k) nm
              \<and> (\<forall>j<k. \<not> name_matches (metrics sc ! j) nm))
          \<or> (find_metric_config (Some c) nm = Some None
              \<and> (\<forall>j<unat (num_active_metrics sc). \<not> name_matches (metrics sc ! j) nm)))
       \<and> ''cpu_usage_of_the_first_processor_core_1'' \<noteq> ''cpu_usage_of_the_first_processor''
       \<and> find_metric_config (Some long_name_context) ''cpu_usage_of_the_first_processor_core_1''
           = Some (Some 1)
       \<and> find_metric_config (Some long_name_context) ''cpu_usage_of_the_first_processor''
           = Some (Some 1)
       \<and> find_metric_config (Some long_name_context) ''CPU_USAGE_OF_THE_FIRST_PROCESSOR''
           = Some None"
proof -
  have general: "(\<exists>k. find_metric_config (Some c) nm = Some (Some k)
              \<and> k < unat (num_active_metrics sc)
              \<and> name_matches (metrics sc ! k) nm
              \<and> (\<forall>j<k. \<not> name_matches (metrics sc ! j) nm))
          \<or> (find_metric_config (Some c) nm = Some None
              \<and> (\<forall>j<unat (num_active_metrics sc). \<not> name_matches (metrics sc ! j) nm))"
    using find_metric_loop_first_match [OF assms(2), of nm 0] assms(1)
    by (simp add: find_metric_config_def)
  have longer: "find_metric_config (Some long_name_context)
      ''cpu_usage_of_the_first_processor_core_1'' = Some (Some 1)"
    by (simp add: find_metric_config_def long_name_context_def context_of_def fresh_metric_def
        find_metric_loop.simps strncmp_eq_0_iff c_string_def EMBEDIDS_MAX_METRIC_NAME_LEN_def)
  have exact: "find_metric_config (Some long_name_context)
      ''cpu_usage_of_the_first_processor'' = Some (Some 1)"
    by (simp add: find_metric_config_def long_name_context_def context_of_def fresh_metric_def
        find_metric_loop.simps strncmp_eq_0_iff c_string_def EMBEDIDS_MAX_METRIC_NAME_LEN_def)
  have upper: "find_metric_config (Some long_name_context)
      ''CPU_USAGE_OF_THE_FIRST_PROCESSOR'' = Some None"
    by (simp add: find_metric_config_def long_name_context_def context_of_def fresh_metric_def
        find_metric_loop.simps strncmp_eq_0_iff c_string_def EMBEDIDS_MAX_METRIC_NAME_LEN_def)
  show ?thesis
    using general longer exact upper by simp
qed

theorem metric_lookup_bounded_compare_witness:
  "system_config long_name_context
     = Some \<lparr>metrics =
         [\<lparr>metric = fresh_metric ''cpu_usage_core0'' EMBEDIDS_METRIC_TYPE_FLOAT 4,
           algorithms = [], num_algorithms = 0\<rparr>,
          \<lparr>metric = fresh_metric ''cpu_usage_of_the_first_processor'' EMBEDIDS_METRIC_TYPE_FLOAT 4,
           algorithms = [], num_algorithms = 0\<rparr>,
          \<lparr>metric = fresh_metric ''cpu_usage_of_the_first_processor'' EMBEDIDS_METRIC_TYPE_UINT32 4,
           algorithms = [], num_algorithms = 0\<rparr>],
        max_metrics = 3, num_active_metrics = 3, user_context = 0\<rparr>
   \<and> find_metric_config (Some long_name_context) ''cpu_usage_core0'' = Some (Some 0)
   \<and> find_metric_config (Some long_name_context) ''cpu_usage_core1'' = Some None"
proof -
  let ?sc = "\<lparr>metrics =
         [\<lparr>metric = fresh_metric ''cpu_usage_core0'' EMBEDIDS_METRIC_TYPE_FLOAT 4,
           algorithms = [], num_algorithms = 0\<rparr>,
          \<lparr>metric = fresh_metric ''cpu_usage_of_the_first_processor'' EMBEDIDS_METRIC_TYPE_FLOAT 4,
           algorithms = [], num_algorithms = 0\<rparr>,
          \<lparr>metric = fresh_metric ''cpu_usage_of_the_first_processor'' EMBEDIDS_METRIC_TYPE_UINT32 4,
           algorithms = [], num_algorithms = 0\<rparr>],
        max_metrics = 3, num_active_metrics = 3, user_context = (0::nat)\<rparr>
        :: unit embedids_system_config_t"
  have sc: "system_config long_name_context = Some ?sc"
    by (simp add: long_name_context_def context_of_def)
  have bound: "unat (num_active_metrics ?sc) \<le> length (metrics ?sc)"
    by simp
  have m0: "name_matches (metrics ?sc ! 0) ''cpu_usage_core0''"
    by (simp add: name_matches_def fresh_metric_def)
  have no1: "\<not> name_matches (metrics ?sc ! j) ''cpu_usage_core1''" if "j < 3" for j
  proof -
    from that have "j = 0 \<or> j = 1 \<or> j = 2" by arith
    then show ?thesis
      by (auto simp: name_matches_def fresh_metric_def c_string_def
          EMBEDIDS_MAX_METRIC_NAME_LEN_def)
  qed
  have first: "find_metric_config (Some long_name_context) ''cpu_usage_core0'' = Some (Some 0)"
    using metric_lookup_bounded_compare [OF sc bound, of "''cpu_usage_core0''"] m0
    by (auto simp: less_Suc_eq_0_disj dest: spec [where x = 0])
  have none: "find_metric_config (Some long_name_context) ''cpu_usage_core1'' = Some None"
    using metric_lookup_bounded_compare [OF sc bound, of "''cpu_usage_core1''"] no1
    by auto
  show ?thesis using sc first none by simp
qed

section \<open>The built-in Trend algorithm\<close>

text \<open>
  C5. The Trend algorithm passes on every input. With fewer than \<open>window_size\<close> samples, or
  a window below 2, it returns Ok; otherwise it returns Ok as well, whatever the maximum
  slope, the maximum variance and the expected trend of its configuration are. An algorithm
  of kind Trend therefore contributes Ok and leaves the host memory as it was, and the
  analysis loop goes on with the next algorithm.
\<close>

theorem trend_algorithm_always_passes:
  assumes "i < unat (num_algorithms mc)"
    and "i < length (algorithms mc)"
    and "embedids_algorithm_t.type (algorithms mc ! i) = EMBEDIDS_ALGORITHM_TREND"
  shows "run_trend_algorithm m cfg = EMBEDIDS_OK
       \<and> run_algorithm m (a\<lparr>embedids_algorithm_t.type := EMBEDIDS_ALGORITHM_TREND\<rparr>) h
           = Some (EMBEDIDS_OK, h)
       \<and> analyze_metric_loop mc i h = analyze_metric_loop mc (i + 1) h"
proof -
  have stub: "run_trend_algorithm m' cfg' = EMBEDIDS_OK" for m' cfg'
    by (simp add: run_trend_algorithm_def)
  have dispatch: "run_algorithm m' a' h = Some (EMBEDIDS_OK, h)"
    if "embedids_algorithm_t.type a' = EMBEDIDS_ALGORITHM_TREND" for m' and a' :: "'a embedids_algorithm_t"
    using that by (simp add: run_algorithm_def stub)
  have "analyze_metric_loop mc i h = analyze_metric_loop mc (i + 1) h"
    using assms(1,2) dispatch [OF assms(3)]
    by (subst analyze_metric_loop.simps) (simp add: Let_def)
  with stub dispatch show ?thesis by simp
qed

theorem trend_algorithm_always_passes_witness:
  "embedids_algorithm_t.type (trend_algorithm 5 10 :: unit embedids_algorithm_t)
     = EMBEDIDS_ALGORITHM_TREND
   \<and> max_slope (trend (embedids_algorithm_t.config
        (trend_algorithm 5 10 :: unit embedids_algorithm_t))) = 10
   \<and> embedids_analyze_metric (Some steep_context) (Some ''memory_usage'') ()
       = Some (EMBEDIDS_OK, Some steep_context, ())"
proof -
  let ?m = "(fresh_metric ''memory_usage'' EMBEDIDS_METRIC_TYPE_FLOAT 5)
                    \<lparr>history := Some [float_datapoint 10 1000, float_datapoint 30 2000,
                                      float_datapoint 50 3000, float_datapoint 70 4000,
                                      float_datapoint 90 5000],
                      current_size := 5, write_index := 0\<rparr>"
  let ?a = "trend_algorithm 5 10 :: unit embedids_algorithm_t"
  let ?mc = "\<lparr>metric = ?m, algorithms = [?a], num_algorithms = 1\<rparr>
         :: unit embedids_metric_config_t"
  have n: "(0::nat) < unat (num_algorithms ?mc)" and len: "(0::nat) < length (algorithms ?mc)"
    and kind: "embedids_algorithm_t.type (algorithms ?mc ! 0) = EMBEDIDS_ALGORITHM_TREND"
    by (simp_all add: trend_algorithm_def)
  from trend_algorithm_always_passes
    [OF n len kind, of ?m "trend (embedids_algorithm_t.config ?a)" ?a "()"]
  have "analyze_metric_loop ?mc 0 () = analyze_metric_loop ?mc 1 ()"
    by simp
  also have "\<dots> = Some (EMBEDIDS_OK, ())"
    by (subst analyze_metric_loop.simps) simp
  finally have loop: "analyze_metric_loop ?mc 0 () = Some (EMBEDIDS_OK, ())" .
  have "embedids_analyze_metric (Some steep_context) (Some ''memory_usage'') ()
      = Some (EMBEDIDS_OK, Some steep_context, ())"
    using loop
    by (simp add: steep_context_def context_of_def fresh_metric_def embedids_analyze_metric_def
        find_metric_config_def find_metric_loop.simps deref_config_def strncmp_eq_0_iff)
  then show ?thesis by (simp add: trend_algorithm_def)
qed

section \<open>The history ring buffer\<close>

lemma unat_succ_below:
  fixes a b :: "32 word"
  assumes "a < b"
  shows "unat (a + 1) = unat a + 1"
proof -
  have "unat a < unat b" using assms by (simp add: word_less_nat_alt)
  moreover have "unat b < 2 ^ 32" using unsigned_less [of b] by simp
  ultimately have "unat a + 1 < 2 ^ 32" by simp
  then show ?thesis by (simp add: unat_word_ariths)
qed

lemma unat_next_index:
  fixes wi cap :: "32 word"
  assumes "wi < cap"
  shows "unat ((wi + 1) mod cap) = (unat wi + 1) mod unat cap"
  using assms by (simp add: unat_mod unat_succ_below)

lemma take_Suc_update:
  assumes "n < length buf"
  shows "take (n + 1) (buf[n := x]) = take n buf @ [x]"
  using assms by (simp add: take_Suc_conv_app_nth)

lemma rotate_after_overwrite:
  assumes "w < length buf"
  shows "drop ((w + 1) mod length buf) (buf[w := x]) @ take ((w + 1) mod length buf) (buf[w := x])
           = tl (drop w buf @ take w buf) @ [x]"
proof -
  have tl_eq: "tl (drop w buf @ take w buf) = drop (w + 1) buf @ take w buf"
    using assms by (simp add: drop_Suc tl_drop)
  show ?thesis
  proof (cases "w + 1 < length buf")
    case True
    then have "(w + 1) mod length buf = w + 1" by simp
    then show ?thesis
      using assms tl_eq by (simp add: take_Suc_conv_app_nth)
  next
    case False
    with assms have last: "w + 1 = length buf" by simp
    then have "buf[w := x] = take w buf @ [x]"
      using assms by (simp add: upd_conv_take_nth_drop)
    then show ?thesis
      using last tl_eq by simp
  qed
qed

lemma store_datapoint_wf:
  assumes "history m = Some buf"
    and "length buf = unat (max_history_size m)"
    and "write_index m < max_history_size m"
  shows "store_datapoint m v ts
           = Some (m\<lparr>history := Some (buf[unat (write_index m) := \<lparr>value = v, timestamp_ms = ts\<rparr>]),
                     current_size := (if current_size m < max_history_size m
                                      then current_size m + 1 else current_size m),
                     write_index := (write_index m + 1) mod max_history_size m\<rparr>)"
proof -
  have "unat (write_index m) < length buf"
    using assms by (simp add: word_less_nat_alt)
  moreover have "max_history_size m \<noteq> 0"
    using assms(3) by auto
  ultimately show ?thesis
    using assms(1) by (simp add: store_datapoint_def Let_def)
qed

lemma store_datapoint_samples:
  assumes "ring_invar m" and "store_datapoint m v ts = Some m'"
  shows "ring_invar m'"
    and "samples m' = (if current_size m < max_history_size m
                       then samples m @ [\<lparr>value = v, timestamp_ms = ts\<rparr>]
                       else tl (samples m) @ [\<lparr>value = v, timestamp_ms = ts\<rparr>])"
proof -
  let ?dp = "\<lparr>value = v, timestamp_ms = ts\<rparr>"
  let ?C = "max_history_size m" and ?wi = "write_index m" and ?cs = "current_size m"
  from assms(1) obtain buf where buf: "history m = Some buf" "length buf = unat ?C"
    and wi: "?wi < ?C" and cs: "?cs \<le> ?C" and inv: "?cs = ?C \<or> ?wi = ?cs"
    by (auto simp: ring_invar_def metric_wf_def split: option.splits)
  have m': "m' = m\<lparr>history := Some (buf[unat ?wi := ?dp]),
                     current_size := (if ?cs < ?C then ?cs + 1 else ?cs),
                     write_index := (?wi + 1) mod ?C\<rparr>"
    using store_datapoint_wf [OF buf wi, of v ts] assms(2) by simp
  have w_lt: "unat ?wi < length buf"
    using wi buf by (simp add: word_less_nat_alt)
  have w': "unat ((?wi + 1) mod ?C) = (unat ?wi + 1) mod length buf"
    using unat_next_index [OF wi] buf by simp
  have wi'_lt: "(?wi + 1) mod ?C < ?C"
    using wi w' w_lt buf by (simp add: word_less_nat_alt)
  show "samples m' = (if ?cs < ?C then samples m @ [?dp] else tl (samples m) @ [?dp])"
  proof (cases "?cs < ?C")
    case False
    with cs have full: "?cs = ?C" by simp
    then show ?thesis
      using buf m' w' rotate_after_overwrite [OF w_lt, of ?dp]
      by (simp add: samples_def)
  next
    case True
    with inv have same: "?wi = ?cs" by auto
    have n1: "unat (?cs + 1) = unat ?cs + 1"
      using unat_succ_below [OF True] .
    show ?thesis
    proof (cases "?cs + 1 = ?C")
      case last: True
      then have len: "unat ?cs + 1 = length buf"
        using n1 buf by simp
      then have "(unat ?wi + 1) mod length buf = 0"
        using same by simp
      moreover have "buf[unat ?cs := ?dp] = take (unat ?cs) buf @ [?dp]"
        using len by (simp add: upd_conv_take_nth_drop)
      ultimately show ?thesis
        using True last buf m' w' same by (simp add: samples_def)
    next
      case False
      then show ?thesis
        using True buf m' same n1 w_lt take_Suc_update [of "unat ?cs" buf ?dp]
        by (simp add: samples_def)
    qed
  qed
  show "ring_invar m'"
  proof -
    have wf: "metric_wf m'"
      using buf m' wi'_lt cs by (auto simp: metric_wf_def inc_le)
    have "current_size m' = max_history_size m' \<or> write_index m' = current_size m'"
    proof (cases "?cs < ?C")
      case False
      with cs have "?cs = ?C" by simp
      then show ?thesis using m' by simp
    next
      case True
      with inv have same: "?wi = ?cs" by auto
      show ?thesis
      proof (cases "?cs + 1 = ?C")
        case True
        then show ?thesis using m' \<open>?cs < ?C\<close> by simp
      next
        case False
        have "?cs + 1 \<le> ?C" using True by (simp add: inc_le)
        with False have "?cs + 1 < ?C" by simp
        then have "(?cs + 1) mod ?C = ?cs + 1"
          by (simp add: word_mod_less_divisor mod_word_less)
        then show ?thesis using m' same True by simp
      qed
    qed
    with wf show ?thesis by (simp add: ring_invar_def)
  qed
qed

lemma deref_store_metric:
  assumes "deref_config c i = Some mc"
  shows "deref_config (store_metric c i m') i = Some (mc\<lparr>metric := m'\<rparr>)"
    and "j \<noteq> i \<Longrightarrow> deref_config (store_metric c i m') j = deref_config c j"
  using assms
  by (auto simp: deref_config_def store_metric_def split: option.splits if_splits)

lemma replicate_3: "replicate 3 x = [x, x, x]"
  by (simp add: numeral_3_eq_3)

lemma small_buffer_run:
  "Option.bind
     (add_datapoints small_buffer_context ''small_buffer''
        [(float_value 0, 1000), (float_value 1, 2000), (float_value 2, 3000),
         (float_value 3, 4000), (float_value 4, 5000)])
     (\<lambda>c'. deref_config c' 0) = Some small_buffer_final"
  by (simp add: small_buffer_context_def small_buffer_final_def context_of_def fresh_metric_def
      embedids_add_datapoint_def find_metric_config_def find_metric_loop.simps
      deref_config_def store_metric_def store_datapoint_def strncmp_eq_0_iff
      float_datapoint_def zero_datapoint_def replicate_3 Let_def)

lemma small_buffer_samples:
  "map (\<lambda>d. f32 (value d)) (samples (metric small_buffer_final)) = [2, 3, 4]"
  by (simp add: small_buffer_final_def samples_def float_datapoint_def float_value_def)

lemma store_datapoint_fields:
  assumes "metric_wf m"
  shows "\<exists>m'. store_datapoint m v ts = Some m'
          \<and> history m' = map_option
                (\<lambda>buf. buf[unat (write_index m) := \<lparr>value = v, timestamp_ms = ts\<rparr>]) (history m)
          \<and> unat (write_index m') = (unat (write_index m) + 1) mod unat (max_history_size m)
          \<and> unat (current_size m') = min (unat (current_size m) + 1) (unat (max_history_size m))
          \<and> max_history_size m' = max_history_size m
          \<and> metric_wf m'"
proof -
  let ?C = "max_history_size m" and ?wi = "write_index m" and ?cs = "current_size m"
  from assms obtain buf where buf: "history m = Some buf" "length buf = unat ?C"
    and wi: "?wi < ?C" and cs: "?cs \<le> ?C"
    by (auto simp: metric_wf_def split: option.splits)
  let ?m' = "m\<lparr>history := Some (buf[unat ?wi := \<lparr>value = v, timestamp_ms = ts\<rparr>]),
                current_size := (if ?cs < ?C then ?cs + 1 else ?cs),
                write_index := (?wi + 1) mod ?C\<rparr>"
  have st: "store_datapoint m v ts = Some ?m'"
    using store_datapoint_wf [OF buf wi] .
  have w': "unat ((?wi + 1) mod ?C) = (unat ?wi + 1) mod unat ?C"
    using unat_next_index [OF wi] .
  have "unat ?wi < unat ?C" using wi by (simp add: word_less_nat_alt)
  then have wi'_lt: "(?wi + 1) mod ?C < ?C"
    using w' by (simp add: word_less_nat_alt)
  have size: "unat (if ?cs < ?C then ?cs + 1 else ?cs) = min (unat ?cs + 1) (unat ?C)"
  proof (cases "?cs < ?C")
    case True
    then have "unat ?cs < unat ?C" by (simp add: word_less_nat_alt)
    with True show ?thesis by (simp add: unat_succ_below [OF True])
  next
    case False
    with cs have "?cs = ?C" by simp
    with False show ?thesis by simp
  qed
  have "metric_wf ?m'"
    using buf wi'_lt cs by (auto simp: metric_wf_def inc_le)
  with st w' size buf show ?thesis by simp
qed

text \<open>
  C3. On an initialized context, for an enabled metric found under the given name whose
  buffer satisfies the invariants of the data model (so its capacity \<open>C\<close> is positive),
  AddDataPoint returns Ok, writes the sample into the slot at the write cursor, advances the
  cursor to \<open>(cursor + 1) mod C\<close>, and sets the current size to \<open>min (size + 1) C\<close>: it grows by
  one until it is pinned at \<open>C\<close>. No other metric changes. When the metric has been filled
  from the empty state, the retained samples, oldest first, gain the new sample at the end,
  and once the buffer is full they lose their oldest sample for it. For a capacity of 3,
  inserting the values 0, 1, 2, 3, 4 leaves the current size 3, the write cursor 2 and the
  retained samples 2, 3, 4.
\<close>

theorem ring_buffer_overwrite:
  assumes "initialized c"
    and "find_metric_config (Some c) nm = Some (Some i)"
    and "deref_config c i = Some mc"
    and "embedids_metric_t.enabled (metric mc)"
    and "metric_wf (metric mc)"
  shows "(\<exists>m'. embedids_add_datapoint (Some c) (Some nm) v ts
                 = Some (EMBEDIDS_OK, Some (store_metric c i m'))
            \<and> deref_config (store_metric c i m') i = Some (mc\<lparr>metric := m'\<rparr>)
            \<and> (\<forall>j. j \<noteq> i \<longrightarrow> deref_config (store_metric c i m') j = deref_config c j)
            \<and> history m' = map_option
                  (\<lambda>buf. buf[unat (write_index (metric mc)) := \<lparr>value = v, timestamp_ms = ts\<rparr>])
                  (history (metric mc))
            \<and> unat (write_index m')
                 = (unat (write_index (metric mc)) + 1) mod unat (max_history_size (metric mc))
            \<and> unat (current_size m')
                 = min (unat (current_size (metric mc)) + 1) (unat (max_history_size (metric mc)))
            \<and> max_history_size m' = max_history_size (metric mc)
            \<and> metric_wf m'
            \<and> (ring_invar (metric mc) \<longrightarrow>
                 ring_invar m'
                 \<and> samples m'
                     = (if current_size (metric mc) < max_history_size (metric mc)
                        then samples (metric mc) @ [\<lparr>value = v, timestamp_ms = ts\<rparr>]
                        else tl (samples (metric mc)) @ [\<lparr>value = v, timestamp_ms = ts\<rparr>])))
       \<and> Option.bind
            (add_datapoints small_buffer_context ''small_buffer''
               [(float_value 0, 1000), (float_value 1, 2000), (float_value 2, 3000),
                (float_value 3, 4000), (float_value 4, 5000)])
            (\<lambda>c'. deref_config c' 0) = Some small_buffer_final
       \<and> current_size (metric small_buffer_final) = 3
       \<and> write_index (metric small_buffer_final) = 2
       \<and> map (\<lambda>d. f32 (value d)) (samples (metric small_buffer_final)) = [2, 3, 4]"
proof -
  from store_datapoint_fields [OF assms(5), of v ts] obtain m' where
    st: "store_datapoint (metric mc) v ts = Some m'"
    and fields: "history m' = map_option
        (\<lambda>buf. buf[unat (write_index (metric mc)) := \<lparr>value = v, timestamp_ms = ts\<rparr>])
        (history (metric mc))"
      "unat (write_index m')
         = (unat (write_index (metric mc)) + 1) mod unat (max_history_size (metric mc))"
      "unat (current_size m')
         = min (unat (current_size (metric mc)) + 1) (unat (max_history_size (metric mc)))"
      "max_history_size m' = max_history_size (metric mc)"
      "metric_wf m'"
    by blast
  have hist: "history (metric mc) \<noteq> None"
    using assms(5) by (auto simp: metric_wf_def split: option.splits)
  have call: "embedids_add_datapoint (Some c) (Some nm) v ts
      = Some (EMBEDIDS_OK, Some (store_metric c i m'))"
    using assms(1-4) hist st by (auto simp: embedids_add_datapoint_def Let_def)
  have ring: "ring_invar (metric mc) \<longrightarrow>
      ring_invar m'
      \<and> samples m' = (if current_size (metric mc) < max_history_size (metric mc)
                      then samples (metric mc) @ [\<lparr>value = v, timestamp_ms = ts\<rparr>]
                      else tl (samples (metric mc)) @ [\<lparr>value = v, timestamp_ms = ts\<rparr>])"
    using store_datapoint_samples [OF _ st] by blast
  have frame: "\<forall>j. j \<noteq> i \<longrightarrow> deref_config (store_metric c i m') j = deref_config c j"
    using deref_store_metric(2) [OF assms(3)] by blast
  have general: "\<exists>m'. embedids_add_datapoint (Some c) (Some nm) v ts
                 = Some (EMBEDIDS_OK, Some (store_metric c i m'))
            \<and> deref_config (store_metric c i m') i = Some (mc\<lparr>metric := m'\<rparr>)
            \<and> (\<forall>j. j \<noteq> i \<longrightarrow> deref_config (store_metric c i m') j = deref_config c j)
            \<and> history m' = map_option
                  (\<lambda>buf. buf[unat (write_index (metric mc)) := \<lparr>value = v, timestamp_ms = ts\<rparr>])
                  (history (metric mc))
            \<and> unat (write_index m')
                 = (unat (write_index (metric mc)) + 1) mod unat (max_history_size (metric mc))
            \<and> unat (current_size m')
                 = min (unat (current_size (metric mc)) + 1) (unat (max_history_size (metric mc)))
            \<and> max_history_size m' = max_history_size (metric mc)
            \<and> metric_wf m'
            \<and> (ring_invar (metric mc) \<longrightarrow>
                 ring_invar m'
                 \<and> samples m'
                     = (if current_size (metric mc) < max_history_size (metric mc)
                        then samples (metric mc) @ [\<lparr>value = v, timestamp_ms = ts\<rparr>]
                        else tl (samples (metric mc)) @ [\<lparr>value = v, timestamp_ms = ts\<rparr>]))"
    using call deref_store_metric(1) [OF assms(3), of m'] frame fields ring
    by (intro exI [of _ m'] conjI)
  have sizes: "current_size (metric small_buffer_final) = 3
      \<and> write_index (metric small_buffer_final) = 2"
    by (simp add: small_buffer_final_def)
  show ?thesis
    using general small_buffer_run small_buffer_samples sizes by (intro conjI) simp_all
qed

theorem ring_buffer_overwrite_witness:
  "initialized small_buffer_context
   \<and> find_metric_config (Some small_buffer_context) ''small_buffer'' = Some (Some 0)
   \<and> ring_invar (fresh_metric ''small_buffer'' EMBEDIDS_METRIC_TYPE_FLOAT 3)
   \<and> (\<exists>m'. embedids_add_datapoint (Some small_buffer_context) (Some ''small_buffer'')
               (float_value 7) 1000
              = Some (EMBEDIDS_OK, Some (store_metric small_buffer_context 0 m'))
          \<and> unat (write_index m') = 1
          \<and> unat (current_size m') = 1
          \<and> samples m' = [float_datapoint 7 1000])"
proof -
  let ?mc = "\<lparr>metric = fresh_metric ''small_buffer'' EMBEDIDS_METRIC_TYPE_FLOAT 3,
              algorithms = [], num_algorithms = 0\<rparr> :: unit embedids_metric_config_t"
  have init: "initialized small_buffer_context"
    by (simp add: small_buffer_context_def context_of_def)
  have found: "find_metric_config (Some small_buffer_context) ''small_buffer'' = Some (Some 0)"
    by (simp add: small_buffer_context_def context_of_def fresh_metric_def
        find_metric_config_def find_metric_loop.simps strncmp_eq_0_iff)
  have deref: "deref_config small_buffer_context 0 = Some ?mc"
    by (simp add: small_buffer_context_def context_of_def deref_config_def)
  have en: "embedids_metric_t.enabled (metric ?mc)"
    by (simp add: fresh_metric_def)
  have inv: "ring_invar (fresh_metric ''small_buffer'' EMBEDIDS_METRIC_TYPE_FLOAT 3)"
    by (simp add: ring_invar_def metric_wf_def fresh_metric_def)
  then have wf: "metric_wf (metric ?mc)"
    by (simp add: ring_invar_def)
  have empty: "samples (metric ?mc) = []" "unat (write_index (metric ?mc)) = 0"
    "unat (current_size (metric ?mc)) = 0" "unat (max_history_size (metric ?mc)) = 3"
    "current_size (metric ?mc) < max_history_size (metric ?mc)"
    by (simp_all add: samples_def fresh_metric_def)
  from ring_buffer_overwrite [OF init found deref en wf, of "float_value 7" 1000]
  obtain m' where
    "embedids_add_datapoint (Some small_buffer_context) (Some ''small_buffer'')
       (float_value 7) 1000 = Some (EMBEDIDS_OK, Some (store_metric small_buffer_context 0 m'))"
    "unat (write_index m') = (unat (write_index (metric ?mc)) + 1) mod unat (max_history_size (metric ?mc))"
    "unat (current_size m') = min (unat (current_size (metric ?mc)) + 1) (unat (max_history_size (metric ?mc)))"
    "ring_invar (metric ?mc) \<longrightarrow> samples m' =
       (if current_size (metric ?mc) < max_history_size (metric ?mc)
        then samples (metric ?mc) @ [\<lparr>value = float_value 7, timestamp_ms = 1000\<rparr>]
        else tl (samples (metric ?mc)) @ [\<lparr>value = float_value 7, timestamp_ms = 1000\<rparr>])"
    by blast
  with inv empty have "embedids_add_datapoint (Some small_buffer_context) (Some ''small_buffer'')
               (float_value 7) 1000
              = Some (EMBEDIDS_OK, Some (store_metric small_buffer_context 0 m'))
          \<and> unat (write_index m') = 1
          \<and> unat (current_size m') = 1
          \<and> samples m' = [float_datapoint 7 1000]"
    by (simp add: float_datapoint_def)
  then show ?thesis using init found inv by blast
qed

section \<open>Metrics that cannot accept data\<close>

lemma add_datapoint_null_history:
  assumes "initialized c"
    and "find_metric_config (Some c) nm = Some (Some i)"
    and "deref_config c i = Some mc"
    and "embedids_metric_t.enabled (metric mc)"
    and "history (metric mc) = None"
  shows "embedids_add_datapoint (Some c) (Some nm) v ts
           = Some (EMBEDIDS_ERROR_INVALID_PARAM, Some c)"
  using assms by (simp add: embedids_add_datapoint_def)

lemma add_datapoint_zero_capacity:
  assumes "initialized c"
    and "find_metric_config (Some c) nm = Some (Some i)"
    and "deref_config c i = Some mc"
    and "embedids_metric_t.enabled (metric mc)"
    and "history (metric mc) = Some buf"
    and "max_history_size (metric mc) = 0"
  shows "embedids_add_datapoint (Some c) (Some nm) v ts = None"
  using assms by (simp add: embedids_add_datapoint_def store_datapoint_def Let_def)

text \<open>
  C2. For a NULL history buffer AddDataPoint returns InvalidParam and stores nothing. For a
  capacity of 0 with a buffer present there is no guard: the function executes the two
  stores into \<open>history[write_index]\<close> and then evaluates \<open>(write_index + 1) % 0\<close>, whose
  behaviour is undefined; it returns no failure code.
\<close>

theorem add_datapoint_zero_capacity_unguarded:
  "embedids_add_datapoint (Some null_history_context) (Some ''cpu_usage'') (float_value 42) 1000
     = Some (EMBEDIDS_ERROR_INVALID_PARAM, Some null_history_context)
   \<and> embedids_add_datapoint (Some zero_capacity_context) (Some ''cpu_usage'') (float_value 42) 1000
     = None"
  by (simp add: null_history_context_def zero_capacity_context_def context_of_def fresh_metric_def
      embedids_add_datapoint_def find_metric_config_def find_metric_loop.simps
      deref_config_def store_datapoint_def strncmp_eq_0_iff replicate_3 Let_def)

section \<open>The built-in Threshold algorithm\<close>

lemma prev_slot_mod:
  fixes a n :: nat
  assumes "0 < a" and "a < n"
  shows "(a + n - 1) mod n = a - 1"
proof -
  have "a + n - 1 = (a - 1) + n" using assms by arith
  then have "(a + n - 1) mod n = ((a - 1) + n) mod n" by (simp only:)
  also have "\<dots> = (a - 1) mod n" by (simp only: mod_add_self2)
  also have "\<dots> = a - 1" using assms by simp
  finally show ?thesis .
qed

lemma latest_index_slot:
  assumes "write_index m < max_history_size m"
  shows "unat (if write_index m > 0 then write_index m - 1 else max_history_size m - 1)
           = latest_slot m"
proof (cases "write_index m > 0")
  case True
  then have nz: "write_index m \<noteq> 0" by auto
  have lt: "unat (write_index m) < unat (max_history_size m)"
    using assms by (simp add: word_less_nat_alt)
  have pos: "0 < unat (write_index m)"
    using nz by (simp add: unat_gt_0)
  have slot: "latest_slot m = unat (write_index m) - 1"
    unfolding latest_slot_def using pos lt by (rule prev_slot_mod)
  have "unat (write_index m - 1) = unat (write_index m) - 1"
    using nz by (rule unat_minus_one)
  then show ?thesis
    using True slot by simp
next
  case False
  then have z: "write_index m = 0" by (simp add: word_gt_0)
  with assms have c: "max_history_size m \<noteq> 0" by auto
  have "unat (max_history_size m - 1) = unat (max_history_size m) - 1"
    using c by (rule unat_minus_one)
  moreover have "0 < unat (max_history_size m)" using c by (simp add: unat_gt_0)
  ultimately show ?thesis
    using z by (simp add: latest_slot_def)
qed

lemma exceeds_verdict:
  "exceeds (check_min cfg) (check_max cfg) a lo hi
     = (if (check_min cfg \<and> a < lo) \<or> (check_max cfg \<and> hi < a)
        then EMBEDIDS_ERROR_THRESHOLD_EXCEEDED else EMBEDIDS_OK)"
  by (simp add: exceeds_def)

lemma run_threshold_algorithm_wf:
  assumes "metric_wf m" and "history m = Some buf"
  shows "run_threshold_algorithm m cfg
           = Some (if current_size m = 0 then EMBEDIDS_OK
                   else threshold_verdict (embedids_metric_t.type m) cfg
                          (value (buf ! latest_slot m)))"
proof -
  from assms have len: "length buf = unat (max_history_size m)"
    and wi: "write_index m < max_history_size m"
    by (auto simp: metric_wf_def)
  have "unat (write_index m) < unat (max_history_size m)"
    using wi by (simp add: word_less_nat_alt)
  then have "0 < unat (max_history_size m)"
    by simp
  then have inb: "latest_slot m < length buf"
    using len by (simp add: latest_slot_def)
  show ?thesis
    using assms(2) inb latest_index_slot [OF wi]
    by (cases "embedids_metric_t.type m")
       (simp_all add: run_threshold_algorithm_def array_read_def Let_def exceeds_verdict
          threshold_verdict_def violates_bounds_def strictly_below_def)
qed

lemma latest_slot_after_store:
  assumes "metric_wf m" and "store_datapoint m v ts = Some m'"
  shows "\<exists>buf'. history m' = Some buf' \<and> buf' ! latest_slot m' = \<lparr>value = v, timestamp_ms = ts\<rparr>
           \<and> current_size m' \<noteq> 0 \<and> metric_wf m'
           \<and> embedids_metric_t.type m' = embedids_metric_t.type m"
proof -
  let ?C = "max_history_size m" and ?wi = "write_index m" and ?cs = "current_size m"
  from assms(1) obtain buf where buf: "history m = Some buf" "length buf = unat ?C"
    and wi: "?wi < ?C" and cs: "?cs \<le> ?C"
    by (auto simp: metric_wf_def split: option.splits)
  have m': "m' = m\<lparr>history := Some (buf[unat ?wi := \<lparr>value = v, timestamp_ms = ts\<rparr>]),
                     current_size := (if ?cs < ?C then ?cs + 1 else ?cs),
                     write_index := (?wi + 1) mod ?C\<rparr>"
    using store_datapoint_wf [OF buf wi, of v ts] assms(2) by simp
  have lt: "unat ?wi < unat ?C"
    using wi by (simp add: word_less_nat_alt)
  have "latest_slot m' = ((unat ?wi + 1) mod unat ?C + unat ?C - 1) mod unat ?C"
    using m' unat_next_index [OF wi] by (simp add: latest_slot_def)
  also have "\<dots> = unat ?wi"
  proof (cases "unat ?wi + 1 < unat ?C")
    case True
    then show ?thesis by simp
  next
    case False
    with lt have "unat ?wi + 1 = unat ?C" by simp
    then show ?thesis by simp
  qed
  finally have slot: "latest_slot m' = unat ?wi" .
  have nz: "current_size m' \<noteq> 0"
  proof (cases "?cs < ?C")
    case True
    then have "unat (?cs + 1) = unat ?cs + 1" by (rule unat_succ_below)
    then have "unat (?cs + 1) \<noteq> 0" by simp
    then have "?cs + 1 \<noteq> 0" by (simp add: unat_eq_0)
    with True m' show ?thesis by simp
  next
    case False
    with cs have "?cs = ?C" by simp
    moreover have "?C \<noteq> 0" using wi by auto
    ultimately show ?thesis using m' by simp
  qed
  have "metric_wf m'"
    using store_datapoint_fields [OF assms(1), of v ts] assms(2) by auto
  with slot nz m' lt buf show ?thesis by simp
qed

text \<open>
  C4. For a metric that satisfies the invariants of the data model, the Threshold algorithm
  passes when the metric holds no sample, and otherwise judges one sample only: the one in
  the slot before the write cursor (modulo the capacity), which after an AddDataPoint is the
  sample just written. The sample is compared with the enabled bounds by strict inequality
  on the field the metric's type selects, and a violated bound gives ThresholdExceeded; a
  boolean metric passes. A metric with no sample passes whatever its other fields are. For
  a float metric with both bounds enabled at 0 and 100, the values 0 and 100 pass, and -0.1
  and 100.1 give ThresholdExceeded.
\<close>

theorem threshold_checks_latest_sample:
  assumes "metric_wf m" and "history m = Some buf"
  shows "run_threshold_algorithm m cfg
           = Some (if current_size m = 0 then EMBEDIDS_OK
                   else threshold_verdict (embedids_metric_t.type m) cfg
                          (value (buf ! latest_slot m)))
       \<and> (\<forall>v ts m'. store_datapoint m v ts = Some m' \<longrightarrow>
             run_threshold_algorithm m' cfg
               = Some (threshold_verdict (embedids_metric_t.type m) cfg v))
       \<and> (embedids_metric_t.type m = EMBEDIDS_METRIC_TYPE_BOOL \<longrightarrow>
             run_threshold_algorithm m cfg = Some EMBEDIDS_OK)
       \<and> (current_size m0 = 0 \<longrightarrow> run_threshold_algorithm m0 cfg = Some EMBEDIDS_OK)
       \<and> insert_and_analyze 0 = Some EMBEDIDS_OK
       \<and> insert_and_analyze 100 = Some EMBEDIDS_OK
       \<and> insert_and_analyze (- 0.1) = Some EMBEDIDS_ERROR_THRESHOLD_EXCEEDED
       \<and> insert_and_analyze 100.1 = Some EMBEDIDS_ERROR_THRESHOLD_EXCEEDED"
proof -
  have latest: "run_threshold_algorithm m cfg
           = Some (if current_size m = 0 then EMBEDIDS_OK
                   else threshold_verdict (embedids_metric_t.type m) cfg
                          (value (buf ! latest_slot m)))"
    using run_threshold_algorithm_wf [OF assms] .
  have written: "run_threshold_algorithm m' cfg
      = Some (threshold_verdict (embedids_metric_t.type m) cfg v)"
    if "store_datapoint m v ts = Some m'" for v ts m'
  proof -
    from latest_slot_after_store [OF assms(1) that] obtain buf' where
      b: "history m' = Some buf'" "buf' ! latest_slot m' = \<lparr>value = v, timestamp_ms = ts\<rparr>"
        "current_size m' \<noteq> 0" "metric_wf m'"
        "embedids_metric_t.type m' = embedids_metric_t.type m"
      by blast
    show ?thesis
      using run_threshold_algorithm_wf [OF b(4) b(1), of cfg] b(2,3,5) by simp
  qed
  have bool: "run_threshold_algorithm m cfg = Some EMBEDIDS_OK"
    if "embedids_metric_t.type m = EMBEDIDS_METRIC_TYPE_BOOL"
    using latest that
    by (simp add: threshold_verdict_def violates_bounds_def strictly_below_def)
  have empty: "run_threshold_algorithm m0 cfg = Some EMBEDIDS_OK" if "current_size m0 = 0"
    using that by (simp add: run_threshold_algorithm_def)
  have boundary: "insert_and_analyze x
      = Some (if x < 0 \<or> 100 < x then EMBEDIDS_ERROR_THRESHOLD_EXCEEDED else EMBEDIDS_OK)"
    for x
    by (simp add: insert_and_analyze_def bounded_context_def context_of_def fresh_metric_def
        threshold_algorithm_def embedids_add_datapoint_def embedids_analyze_metric_def
        find_metric_config_def find_metric_loop.simps deref_config_def store_metric_def
        store_datapoint_def strncmp_eq_0_iff replicate_3 analyze_metric_loop.simps
        run_algorithm_def run_threshold_algorithm_def array_read_def exceeds_def
        float_value_def zero_value_def Let_def)
  have examples: "insert_and_analyze 0 = Some EMBEDIDS_OK"
    "insert_and_analyze 100 = Some EMBEDIDS_OK"
    "insert_and_analyze (- 0.1) = Some EMBEDIDS_ERROR_THRESHOLD_EXCEEDED"
    "insert_and_analyze 100.1 = Some EMBEDIDS_ERROR_THRESHOLD_EXCEEDED"
    by (simp_all add: boundary)
  show ?thesis
    using latest written bool empty examples by (intro conjI allI impI) blast+
qed

theorem threshold_checks_latest_sample_witness:
  "metric_wf (metric small_buffer_final)
   \<and> latest_slot (metric small_buffer_final) = 1
   \<and> run_threshold_algorithm (metric small_buffer_final)
        (threshold (embedids_algorithm_t.config (threshold_algorithm 0 3.5)))
       = Some EMBEDIDS_ERROR_THRESHOLD_EXCEEDED
   \<and> run_threshold_algorithm (metric small_buffer_final)
        (threshold (embedids_algorithm_t.config (threshold_algorithm 0 4)))
       = Some EMBEDIDS_OK"
proof -
  let ?buf = "[float_datapoint 3 4000, float_datapoint 4 5000, float_datapoint 2 3000]"
  have wf: "metric_wf (metric small_buffer_final)"
    by (simp add: metric_wf_def small_buffer_final_def)
  have hist: "history (metric small_buffer_final) = Some ?buf"
    by (simp add: small_buffer_final_def)
  have slot: "latest_slot (metric small_buffer_final) = 1"
    by (simp add: latest_slot_def small_buffer_final_def)
  have facts: "current_size (metric small_buffer_final) \<noteq> 0"
    "embedids_metric_t.type (metric small_buffer_final) = EMBEDIDS_METRIC_TYPE_FLOAT"
    "f32 (value (?buf ! 1)) = 4"
    by (simp_all add: small_buffer_final_def float_datapoint_def float_value_def)
  have "run_threshold_algorithm (metric small_buffer_final)
        (threshold (embedids_algorithm_t.config (threshold_algorithm 0 hi)))
       = Some (if hi < 4 then EMBEDIDS_ERROR_THRESHOLD_EXCEEDED else EMBEDIDS_OK)" for hi
    using threshold_checks_latest_sample [OF wf hist] slot facts
    by (simp add: threshold_verdict_def violates_bounds_def strictly_below_def
        threshold_algorithm_def float_value_def)
  from this [of "3.5"] this [of 4] wf slot show ?thesis by simp
qed

section \<open>Fail-fast analysis\<close>

lemma spec_fail_fast_first_failure:
  assumes "spec_fail_fast run pre h = Some (EMBEDIDS_OK, h1)"
    and "run x h1 = Some (r, h2)"
    and "r \<noteq> EMBEDIDS_OK"
  shows "spec_fail_fast run (pre @ x # post) h = Some (r, h2)"
  using assms
  by (induction pre arbitrary: h) (auto split: option.splits if_splits)

lemma spec_fail_fast_all_pass:
  assumes "spec_fail_fast run xs h = Some (r, h')" and "r \<noteq> EMBEDIDS_OK"
  shows "\<exists>pre x post h1. xs = pre @ x # post \<and> spec_fail_fast run pre h = Some (EMBEDIDS_OK, h1)
           \<and> run x h1 = Some (r, h')"
  using assms
proof (induction xs arbitrary: h)
  case Nil
  then show ?case by simp
next
  case (Cons y ys)
  from Cons.prems obtain r1 hy where y: "run y h = Some (r1, hy)"
    by (auto split: option.splits)
  show ?case
  proof (cases "r1 = EMBEDIDS_OK")
    case True
    with Cons.prems y have "spec_fail_fast run ys hy = Some (r, h')" by simp
    from Cons.IH [OF this Cons.prems(2)] obtain pre x post h1 where
      "ys = pre @ x # post" "spec_fail_fast run pre hy = Some (EMBEDIDS_OK, h1)"
      "run x h1 = Some (r, h')"
      by blast
    with y True have "y # ys = (y # pre) @ x # post
        \<and> spec_fail_fast run (y # pre) h = Some (EMBEDIDS_OK, h1) \<and> run x h1 = Some (r, h')"
      by simp
    then show ?thesis by blast
  next
    case False
    with Cons.prems y have "r1 = r" "hy = h'" by simp_all
    with y have "y # ys = [] @ y # ys \<and> spec_fail_fast run [] h = Some (EMBEDIDS_OK, h)
        \<and> run y h = Some (r, h')"
      by simp
    then show ?thesis by blast
  qed
qed

lemma analyze_metric_loop_fail_fast:
  assumes "unat (num_algorithms mc) \<le> length (algorithms mc)"
  shows "analyze_metric_loop mc i h
           = spec_fail_fast (run_algorithm (metric mc))
               (filter embedids_algorithm_t.enabled
                  (drop i (take (unat (num_algorithms mc)) (algorithms mc)))) h"
  using assms
proof (induction mc i h rule: analyze_metric_loop.induct)
  case (1 mc i h)
  let ?n = "unat (num_algorithms mc)"
  show ?case
  proof (cases "i < ?n")
    case False
    then show ?thesis
      by (subst analyze_metric_loop.simps) simp
  next
    case True
    with "1.prems" have inb: "i < length (algorithms mc)" by simp
    have split: "drop i (take ?n (algorithms mc))
        = algorithms mc ! i # drop (i + 1) (take ?n (algorithms mc))"
      using True inb by (simp add: Cons_nth_drop_Suc [symmetric])
    show ?thesis
    proof (cases "embedids_algorithm_t.enabled (algorithms mc ! i)")
      case False
      then show ?thesis
        using True inb split "1.IH"(1) [OF True inb refl _ "1.prems"]
        by (subst analyze_metric_loop.simps) (simp add: Let_def)
    next
      case en: True
      show ?thesis
      proof (cases "run_algorithm (metric mc) (algorithms mc ! i) h")
        case None
        then show ?thesis
          using True inb split en
          by (subst analyze_metric_loop.simps) (simp add: Let_def)
      next
        case (Some res)
        obtain r h' where res: "res = (r, h')" by (cases res)
        show ?thesis
        proof (cases "r = EMBEDIDS_OK")
          case ok: True
          have "analyze_metric_loop mc (i + 1) h'
              = spec_fail_fast (run_algorithm (metric mc))
                  (filter embedids_algorithm_t.enabled
                     (drop (i + 1) (take ?n (algorithms mc)))) h'"
            using "1.IH"(2) [OF True inb refl _ Some [unfolded res] refl _ "1.prems"] en ok
            by simp
          then show ?thesis
            using True inb split en Some res ok
            by (subst analyze_metric_loop.simps) (simp add: Let_def)
        next
          case False
          then show ?thesis
            using True inb split en Some res
            by (subst analyze_metric_loop.simps) (simp add: Let_def)
        qed
      qed
    qed
  qed
qed

lemma analyze_metric_found:
  assumes "initialized c"
    and "find_metric_config (Some c) nm = Some (Some i)"
    and "deref_config c i = Some mc"
    and "embedids_metric_t.enabled (metric mc)"
    and "unat (num_algorithms mc) \<le> length (algorithms mc)"
  shows "embedids_analyze_metric (Some c) (Some nm) h
           = returning c (spec_fail_fast (run_algorithm (metric mc)) (enabled_algorithms mc) h)"
  using assms analyze_metric_loop_fail_fast [OF assms(5), of 0 h]
  by (auto simp: embedids_analyze_metric_def returning_def enabled_algorithms_def
      split: option.splits)

lemma analyze_all_loop_fail_fast:
  assumes "system_config c = Some sc"
    and "unat (num_active_metrics sc) \<le> length (metrics sc)"
  shows "analyze_all_loop c i h
           = returning c
               (spec_fail_fast (analyze_by_name c)
                  (filter (\<lambda>mc. embedids_metric_t.enabled (metric mc))
                     (drop i (take (unat (num_active_metrics sc)) (metrics sc)))) h)"
  using assms
proof (induction c i h rule: analyze_all_loop.induct)
  case (1 c i h)
  let ?n = "unat (num_active_metrics sc)"
  have unfold: "analyze_all_loop c i h =
          (if i < unat (num_active_metrics sc) then
            (if i < length (metrics sc) then
               let mc = metrics sc ! i in
               if embedids_metric_t.enabled (metric mc) then
                 (case embedids_analyze_metric (Some c) (Some (name (metric mc))) h of
                    None \<Rightarrow> None
                  | Some (result, ctx', h') \<Rightarrow>
                      if result \<noteq> EMBEDIDS_OK then Some (result, ctx', h')
                      else (case ctx' of
                              None \<Rightarrow> None
                            | Some c' \<Rightarrow> analyze_all_loop c' (i + 1) h'))
               else analyze_all_loop c (i + 1) h
             else None)
          else Some (EMBEDIDS_OK, Some c, h))"
    by (subst analyze_all_loop.simps) (simp only: "1.prems"(1) option.case)
  show ?case
  proof (cases "i < ?n")
    case False
    then show ?thesis
      by (simp add: unfold returning_def)
  next
    case True
    with "1.prems" have inb: "i < length (metrics sc)" by simp
    have split: "drop i (take ?n (metrics sc))
        = metrics sc ! i # drop (i + 1) (take ?n (metrics sc))"
      using True inb by (simp add: Cons_nth_drop_Suc [symmetric])
    show ?thesis
    proof (cases "embedids_metric_t.enabled (metric (metrics sc ! i))")
      case False
      have "analyze_all_loop c (i + 1) h = returning c
               (spec_fail_fast (analyze_by_name c)
                  (filter (\<lambda>mc. embedids_metric_t.enabled (metric mc))
                     (drop (i + 1) (take (unat (num_active_metrics sc)) (metrics sc)))) h)"
        using "1.IH"(2) [of sc "metrics sc ! i"] "1.prems" True inb False by simp
      then show ?thesis
        using True inb False by (simp add: unfold split Let_def)
    next
      case en: True
      show ?thesis
      proof (cases "embedids_analyze_metric (Some c)
                      (Some (name (metric (metrics sc ! i)))) h")
        case None
        then have "analyze_by_name c (metrics sc ! i) h = None"
          by (simp add: analyze_by_name_def)
        with None show ?thesis
          using True inb en
          by (simp add: unfold split Let_def returning_def)
      next
        case (Some res)
        obtain r ctx' h' where res: "res = (r, ctx', h')" by (cases res)
        have ctx': "ctx' = Some c"
          using Some [unfolded res] by (rule embedids_analyze_metric_context)
        have byname: "analyze_by_name c (metrics sc ! i) h = Some (r, h')"
          using Some res by (simp add: analyze_by_name_def)
        show ?thesis
        proof (cases "r = EMBEDIDS_OK")
          case ok: True
          have "analyze_all_loop c (i + 1) h'
              = returning c
                  (spec_fail_fast (analyze_by_name c)
                     (filter (\<lambda>mc. embedids_metric_t.enabled (metric mc))
                        (drop (i + 1) (take ?n (metrics sc)))) h')"
            using "1.IH"(1) [of sc "metrics sc ! i" "(r, Some c, h')" r "(Some c, h')" "Some c" h' c]
              "1.prems" True inb en Some res ctx' ok
            by simp
          then show ?thesis
            using True inb en Some res ctx' ok byname
            by (simp add: unfold split Let_def)
        next
          case False
          then show ?thesis
            using True inb en Some res ctx' byname
            by (simp add: unfold split Let_def returning_def)
        qed
      qed
    qed
  qed
qed

text \<open>
  When no metric stored before position \<open>i\<close> matches the name of the metric at \<open>i\<close>, the
  call by name that AnalyzeAll makes for that metric runs that metric's own algorithms.
\<close>

lemma analyze_by_name_own_algorithms:
  assumes "initialized c"
    and "system_config c = Some sc"
    and "unat (num_active_metrics sc) \<le> length (metrics sc)"
    and "i < unat (num_active_metrics sc)"
    and "\<forall>j<i. \<not> name_matches (metrics sc ! j) (name (metric (metrics sc ! i)))"
    and "embedids_metric_t.enabled (metric (metrics sc ! i))"
    and "unat (num_algorithms (metrics sc ! i)) \<le> length (algorithms (metrics sc ! i))"
  shows "analyze_by_name c (metrics sc ! i) h
           = spec_fail_fast (run_algorithm (metric (metrics sc ! i)))
               (enabled_algorithms (metrics sc ! i)) h"
proof -
  let ?nm = "name (metric (metrics sc ! i))"
  have self: "name_matches (metrics sc ! i) ?nm"
    by (simp add: name_matches_def)
  from find_metric_loop_first_match [OF assms(3), of ?nm 0]
  have found: "find_metric_config (Some c) ?nm = Some (Some i)"
  proof (elim disjE exE conjE)
    fix k
    assume k: "find_metric_loop sc ?nm 0 = Some (Some k)" "k < unat (num_active_metrics sc)"
      "name_matches (metrics sc ! k) ?nm"
      "\<forall>j. 0 \<le> j \<and> j < k \<longrightarrow> \<not> name_matches (metrics sc ! j) ?nm"
    have "\<not> k < i" using assms(5) k(3) by blast
    moreover have "\<not> i < k" using k(4) self by blast
    ultimately have "k = i" by simp
    with k(1) assms(2) show ?thesis by (simp add: find_metric_config_def)
  next
    assume "\<forall>j. 0 \<le> j \<and> j < unat (num_active_metrics sc)
              \<longrightarrow> \<not> name_matches (metrics sc ! j) ?nm"
    with assms(4) self show ?thesis by blast
  qed
  have deref: "deref_config c i = Some (metrics sc ! i)"
    using assms(2,3,4) by (simp add: deref_config_def)
  show ?thesis
    using analyze_metric_found [OF assms(1) found deref assms(6,7), of h]
    by (cases "spec_fail_fast (run_algorithm (metric (metrics sc ! i)))
                 (enabled_algorithms (metrics sc ! i)) h")
       (auto simp: analyze_by_name_def returning_def)
qed

lemma spec_fail_fast_cong:
  assumes "\<And>x h. x \<in> set xs \<Longrightarrow> f x h = g x h"
  shows "spec_fail_fast f xs h = spec_fail_fast g xs h"
  using assms
proof (induction xs arbitrary: h)
  case Nil
  show ?case by simp
next
  case (Cons x xs)
  have head: "f x h = g x h" using Cons.prems by simp
  have tail: "spec_fail_fast f xs h' = spec_fail_fast g xs h'" for h'
    using Cons.IH Cons.prems by simp
  show ?case
    by (simp add: head tail split: option.splits)
qed

lemma enabled_metrics_position:
  assumes "mc \<in> set (enabled_metrics sc)"
    and "unat (num_active_metrics sc) \<le> length (metrics sc)"
  shows "\<exists>k < unat (num_active_metrics sc).
           mc = metrics sc ! k \<and> embedids_metric_t.enabled (metric (metrics sc ! k))"
proof -
  let ?n = "unat (num_active_metrics sc)"
  from assms(1) have mem: "mc \<in> set (take ?n (metrics sc))"
    and en: "embedids_metric_t.enabled (metric mc)"
    by (simp_all add: enabled_metrics_def)
  from mem obtain k where k: "k < length (take ?n (metrics sc))" "take ?n (metrics sc) ! k = mc"
    by (auto simp: in_set_conv_nth)
  from k(1) assms(2) have kn: "k < ?n" by simp
  with k(2) have "mc = metrics sc ! k" by simp
  with kn en show ?thesis by blast
qed

text \<open>
  When every enabled active metric is the first active metric that matches its own name,
  the sweep of AnalyzeAll is the sweep over the metrics themselves.
\<close>

lemma analyze_all_own_algorithms:
  assumes "initialized c"
    and "system_config c = Some sc"
    and "unat (num_active_metrics sc) \<le> length (metrics sc)"
    and "\<forall>k < unat (num_active_metrics sc). embedids_metric_t.enabled (metric (metrics sc ! k))
           \<longrightarrow> unat (num_algorithms (metrics sc ! k)) \<le> length (algorithms (metrics sc ! k))
               \<and> (\<forall>j<k. \<not> name_matches (metrics sc ! j) (name (metric (metrics sc ! k))))"
  shows "spec_fail_fast (analyze_by_name c) (enabled_metrics sc) h = spec_analyze_all sc h"
  unfolding spec_analyze_all_def
proof (rule spec_fail_fast_cong)
  fix mc h'
  assume "mc \<in> set (enabled_metrics sc)"
  from enabled_metrics_position [OF this assms(3)] obtain k where
    k: "k < unat (num_active_metrics sc)" "mc = metrics sc ! k"
      "embedids_metric_t.enabled (metric (metrics sc ! k))"
    by blast
  from assms(4) k(1,3) have
    algs: "unat (num_algorithms (metrics sc ! k)) \<le> length (algorithms (metrics sc ! k))"
    and firstk: "\<forall>j<k. \<not> name_matches (metrics sc ! j) (name (metric (metrics sc ! k)))"
    by simp_all
  show "analyze_by_name c mc h'
      = spec_fail_fast (run_algorithm (metric mc)) (enabled_algorithms mc) h'"
    unfolding k(2)
    by (rule analyze_by_name_own_algorithms [OF assms(1,2,3) k(1) firstk k(3) algs])
qed

text \<open>
  C6. AnalyzeMetric, on an enabled metric found under the given name, runs the metric's
  algorithms in stored order, leaves out those whose enabled flag is false, and returns the
  result of the first one that does not pass, without evaluating the ones after it; it
  returns Ok when all of them pass or there is none. AnalyzeAll runs over the active metrics
  in stored order, leaves out the disabled ones, calls AnalyzeMetric with the name of each
  enabled one, and returns the first result that is not Ok, and Ok when there is none. That
  call is the fail-fast run of the metric's own algorithms whenever no metric stored before
  it matches its name; when this is so for every enabled active metric, AnalyzeAll is the
  fail-fast sweep over the enabled metrics themselves, and a disabled metric is never
  reported as a failure. The last two parts say what a fail-fast run is: its result is that
  of the first failing item, whatever follows it, and every result other than Ok is that of
  a first failing item.
\<close>

theorem analysis_is_fail_fast:
  assumes "initialized c"
    and "system_config c = Some sc"
    and "unat (num_active_metrics sc) \<le> length (metrics sc)"
  shows "(\<forall>nm i mc.
             find_metric_config (Some c) nm = Some (Some i) \<and> deref_config c i = Some mc
             \<and> embedids_metric_t.enabled (metric mc)
             \<and> unat (num_algorithms mc) \<le> length (algorithms mc)
             \<longrightarrow> embedids_analyze_metric (Some c) (Some nm) h
                   = returning c
                       (spec_fail_fast (run_algorithm (metric mc)) (enabled_algorithms mc) h))
       \<and> embedids_analyze_all (Some c) h
           = returning c (spec_fail_fast (analyze_by_name c) (enabled_metrics sc) h)
       \<and> (\<forall>k. k < unat (num_active_metrics sc)
                \<and> (\<forall>j<k. \<not> name_matches (metrics sc ! j) (name (metric (metrics sc ! k))))
                \<and> embedids_metric_t.enabled (metric (metrics sc ! k))
                \<and> unat (num_algorithms (metrics sc ! k)) \<le> length (algorithms (metrics sc ! k))
             \<longrightarrow> analyze_by_name c (metrics sc ! k) h
                   = spec_fail_fast (run_algorithm (metric (metrics sc ! k)))
                       (enabled_algorithms (metrics sc ! k)) h)
       \<and> ((\<forall>k < unat (num_active_metrics sc).
               embedids_metric_t.enabled (metric (metrics sc ! k))
               \<longrightarrow> unat (num_algorithms (metrics sc ! k)) \<le> length (algorithms (metrics sc ! k))
                   \<and> (\<forall>j<k. \<not> name_matches (metrics sc ! j) (name (metric (metrics sc ! k)))))
            \<longrightarrow> embedids_analyze_all (Some c) h = returning c (spec_analyze_all sc h))
       \<and> (\<forall>pre x post h0 h1 r h2.
             spec_fail_fast run pre h0 = Some (EMBEDIDS_OK, h1) \<and> run x h1 = Some (r, h2)
             \<and> r \<noteq> EMBEDIDS_OK
             \<longrightarrow> spec_fail_fast run (pre @ x # post) h0 = Some (r, h2))
       \<and> (\<forall>xs h0 r h2.
             spec_fail_fast run xs h0 = Some (r, h2) \<and> r \<noteq> EMBEDIDS_OK
             \<longrightarrow> (\<exists>pre x post h1. xs = pre @ x # post
                    \<and> spec_fail_fast run pre h0 = Some (EMBEDIDS_OK, h1)
                    \<and> run x h1 = Some (r, h2)))"
proof -
  have one: "\<forall>nm i mc.
             find_metric_config (Some c) nm = Some (Some i) \<and> deref_config c i = Some mc
             \<and> embedids_metric_t.enabled (metric mc)
             \<and> unat (num_algorithms mc) \<le> length (algorithms mc)
             \<longrightarrow> embedids_analyze_metric (Some c) (Some nm) h
                   = returning c
                       (spec_fail_fast (run_algorithm (metric mc)) (enabled_algorithms mc) h)"
    by (intro allI impI, elim conjE) (rule analyze_metric_found [OF assms(1)])
  have all: "embedids_analyze_all (Some c) h
      = returning c (spec_fail_fast (analyze_by_name c) (enabled_metrics sc) h)"
    using analyze_all_loop_fail_fast [OF assms(2,3), of 0 h] assms(1)
    by (simp add: embedids_analyze_all_def enabled_metrics_def)
  have own: "\<forall>k. k < unat (num_active_metrics sc)
                \<and> (\<forall>j<k. \<not> name_matches (metrics sc ! j) (name (metric (metrics sc ! k))))
                \<and> embedids_metric_t.enabled (metric (metrics sc ! k))
                \<and> unat (num_algorithms (metrics sc ! k)) \<le> length (algorithms (metrics sc ! k))
             \<longrightarrow> analyze_by_name c (metrics sc ! k) h
                   = spec_fail_fast (run_algorithm (metric (metrics sc ! k)))
                       (enabled_algorithms (metrics sc ! k)) h"
    by (intro allI impI, elim conjE) (rule analyze_by_name_own_algorithms [OF assms(1,2,3)])
  have sweep: "(\<forall>k < unat (num_active_metrics sc).
               embedids_metric_t.enabled (metric (metrics sc ! k))
               \<longrightarrow> unat (num_algorithms (metrics sc ! k)) \<le> length (algorithms (metrics sc ! k))
                   \<and> (\<forall>j<k. \<not> name_matches (metrics sc ! j) (name (metric (metrics sc ! k)))))
            \<longrightarrow> embedids_analyze_all (Some c) h = returning c (spec_analyze_all sc h)"
  proof
    assume "\<forall>k < unat (num_active_metrics sc).
               embedids_metric_t.enabled (metric (metrics sc ! k))
               \<longrightarrow> unat (num_algorithms (metrics sc ! k)) \<le> length (algorithms (metrics sc ! k))
                   \<and> (\<forall>j<k. \<not> name_matches (metrics sc ! j) (name (metric (metrics sc ! k))))"
    from analyze_all_own_algorithms [OF assms(1,2,3) this, of h]
    show "embedids_analyze_all (Some c) h = returning c (spec_analyze_all sc h)"
      by (simp only: all)
  qed
  have first: "\<forall>pre x post h0 h1 r h2.
             spec_fail_fast run pre h0 = Some (EMBEDIDS_OK, h1) \<and> run x h1 = Some (r, h2)
             \<and> r \<noteq> EMBEDIDS_OK
             \<longrightarrow> spec_fail_fast run (pre @ x # post) h0 = Some (r, h2)"
    by (intro allI impI, elim conjE) (rule spec_fail_fast_first_failure)
  have only: "\<forall>xs h0 r h2.
             spec_fail_fast run xs h0 = Some (r, h2) \<and> r \<noteq> EMBEDIDS_OK
             \<longrightarrow> (\<exists>pre x post h1. xs = pre @ x # post
                    \<and> spec_fail_fast run pre h0 = Some (EMBEDIDS_OK, h1)
                    \<and> run x h1 = Some (r, h2))"
    by (intro allI impI, elim conjE) (rule spec_fail_fast_all_pass)
  from one all own sweep first only show ?thesis by (intro conjI)
qed

theorem analysis_is_fail_fast_witness:
  "add_datapoints
       (sweep_context [zero_datapoint, zero_datapoint, zero_datapoint] 0 :: unit embedids_context_t)
       ''metric2'' [(float_value 30, 1000)]
     = Some (sweep_context [float_datapoint 30 1000, zero_datapoint, zero_datapoint] 1)
   \<and> embedids_analyze_all
         (Some (sweep_context [float_datapoint 30 1000, zero_datapoint, zero_datapoint] 1)) ()
       = Some (EMBEDIDS_OK,
               Some (sweep_context [float_datapoint 30 1000, zero_datapoint, zero_datapoint] 1), ())
   \<and> add_datapoints
         (sweep_context [float_datapoint 30 1000, zero_datapoint, zero_datapoint] 1
            :: unit embedids_context_t)
         ''metric2'' [(float_value 75, 2000)]
       = Some (sweep_context [float_datapoint 30 1000, float_datapoint 75 2000, zero_datapoint] 2)
   \<and> embedids_analyze_all
         (Some (sweep_context [float_datapoint 30 1000, float_datapoint 75 2000, zero_datapoint] 2)) ()
       = Some (EMBEDIDS_ERROR_THRESHOLD_EXCEEDED,
               Some (sweep_context [float_datapoint 30 1000, float_datapoint 75 2000, zero_datapoint] 2),
               ())
   \<and> embedids_analyze_metric
         (Some (sweep_context [float_datapoint 30 1000, float_datapoint 75 2000, zero_datapoint] 2))
         (Some ''metric2'') ()
       = Some (EMBEDIDS_ERROR_THRESHOLD_EXCEEDED,
               Some (sweep_context [float_datapoint 30 1000, float_datapoint 75 2000, zero_datapoint] 2),
               ())"
proof -
  have add: "add_datapoints (sweep_context [da, db, dc] n :: unit embedids_context_t)
        ''metric2'' [(float_value x, ts)]
      = Some (sweep_context ([da, db, dc][unat n := float_datapoint x ts]) (n + 1))"
    if "n = 0 \<or> n = 1" for da db dc n x ts
  proof -
    from that show ?thesis
      by (auto simp: sweep_context_def context_of_def fresh_metric_def
          embedids_add_datapoint_def find_metric_config_def find_metric_loop.simps
          deref_config_def store_metric_def store_datapoint_def strncmp_eq_0_iff c_string_def
          EMBEDIDS_MAX_METRIC_NAME_LEN_def float_datapoint_def Let_def)
  qed
  have analysis: "embedids_analyze_all (Some (sweep_context [da, db, dc] n)) ()
        = Some (r, Some (sweep_context [da, db, dc] n), ())
      \<and> embedids_analyze_metric (Some (sweep_context [da, db, dc] n)) (Some ''metric2'') ()
        = Some (r, Some (sweep_context [da, db, dc] n), ())"
    if n: "n = 1 \<or> n = 2"
      and r: "r = (if 50 < f32 (value ([da, db, dc] ! (unat n - 1)))
                   then EMBEDIDS_ERROR_THRESHOLD_EXCEEDED else EMBEDIDS_OK)"
      and lo: "0 \<le> f32 (value ([da, db, dc] ! (unat n - 1)))"
    for da db dc n r
  proof -
    let ?c = "sweep_context [da, db, dc] n"
    let ?m2 = "(fresh_metric ''metric2'' EMBEDIDS_METRIC_TYPE_FLOAT 3)
                 \<lparr>history := Some [da, db, dc], current_size := n, write_index := n\<rparr>"
    let ?mc1 = "\<lparr>metric = (fresh_metric ''metric1'' EMBEDIDS_METRIC_TYPE_FLOAT 3)
                    \<lparr>embedids_metric_t.enabled := False\<rparr>,
         algorithms = [threshold_algorithm 0 0], num_algorithms = 1\<rparr>
         :: unit embedids_metric_config_t"
    let ?mc2 = "\<lparr>metric = ?m2,
         algorithms = [(threshold_algorithm 0 10)\<lparr>embedids_algorithm_t.enabled := False\<rparr>,
                       threshold_algorithm 0 50,
                       threshold_algorithm 0 60],
         num_algorithms = 3\<rparr> :: unit embedids_metric_config_t"
    let ?sc = "\<lparr>metrics = [?mc1, ?mc2], max_metrics = 2, num_active_metrics = 2,
                user_context = (0::nat)\<rparr> :: unit embedids_system_config_t"
    have init: "initialized ?c"
      by (simp add: sweep_context_def context_of_def)
    have sc: "system_config ?c = Some ?sc"
      by (simp add: sweep_context_def context_of_def)
    have bound: "unat (num_active_metrics ?sc) \<le> length (metrics ?sc)"
      by simp
    have found: "find_metric_config (Some ?c) ''metric2'' = Some (Some 1)"
      by (simp add: sweep_context_def context_of_def fresh_metric_def find_metric_config_def
          find_metric_loop.simps strncmp_eq_0_iff c_string_def EMBEDIDS_MAX_METRIC_NAME_LEN_def)
    have deref: "deref_config ?c 1 = Some ?mc2"
      by (simp add: sweep_context_def context_of_def deref_config_def)
    have en: "embedids_metric_t.enabled (metric ?mc2)"
      by (simp add: fresh_metric_def)
    have algs: "unat (num_algorithms ?mc2) \<le> length (algorithms ?mc2)"
      by simp
    have run: "spec_fail_fast (run_algorithm (metric ?mc2)) (enabled_algorithms ?mc2) ()
        = Some (r, ())"
      using n r lo
      by (auto simp: enabled_algorithms_def threshold_algorithm_def run_algorithm_def
          run_threshold_algorithm_def array_read_def exceeds_def fresh_metric_def
          float_value_def zero_value_def Let_def)
    have names: "\<forall>k < unat (num_active_metrics ?sc).
               embedids_metric_t.enabled (metric (metrics ?sc ! k))
               \<longrightarrow> unat (num_algorithms (metrics ?sc ! k)) \<le> length (algorithms (metrics ?sc ! k))
                   \<and> (\<forall>j<k. \<not> name_matches (metrics ?sc ! j) (name (metric (metrics ?sc ! k))))"
    proof (intro allI impI)
      fix k
      assume k: "k < unat (num_active_metrics ?sc)"
        and enk: "embedids_metric_t.enabled (metric (metrics ?sc ! k))"
      from k have "k = 0 \<or> k = 1" by auto
      with enk have k1: "k = 1" by (auto simp: fresh_metric_def)
      have "\<not> name_matches ?mc1 ''metric2''"
        by (simp add: name_matches_def c_string_def fresh_metric_def
            EMBEDIDS_MAX_METRIC_NAME_LEN_def)
      with k1 show "unat (num_algorithms (metrics ?sc ! k)) \<le> length (algorithms (metrics ?sc ! k))
                   \<and> (\<forall>j<k. \<not> name_matches (metrics ?sc ! j) (name (metric (metrics ?sc ! k))))"
        by (simp add: fresh_metric_def)
    qed
    note inst = analysis_is_fail_fast [OF init sc bound, of "()"]
    have "find_metric_config (Some ?c) ''metric2'' = Some (Some 1) \<and> deref_config ?c 1 = Some ?mc2
             \<and> embedids_metric_t.enabled (metric ?mc2)
             \<and> unat (num_algorithms ?mc2) \<le> length (algorithms ?mc2)"
      using found deref en algs by (intro conjI)
    from inst [THEN conjunct1, rule_format, OF this] run
    have one: "embedids_analyze_metric (Some ?c) (Some ''metric2'') () = Some (r, Some ?c, ())"
      by (simp add: returning_def)
    have "spec_analyze_all ?sc () = Some (r, ())"
      using run by (simp add: spec_analyze_all_def enabled_metrics_def fresh_metric_def)
    with inst [THEN conjunct2, THEN conjunct2, THEN conjunct2, THEN conjunct1, THEN mp, OF names]
    have "embedids_analyze_all (Some ?c) () = Some (r, Some ?c, ())"
      by (simp add: returning_def)
    with one show ?thesis by simp
  qed
  show ?thesis
    using add [where n = 0 and da = zero_datapoint and db = zero_datapoint
          and dc = zero_datapoint and x = 30 and ts = 1000]
      add [where n = 1 and da = "float_datapoint 30 1000" and db = zero_datapoint
          and dc = zero_datapoint and x = 75 and ts = 2000]
      analysis [where n = 1 and r = EMBEDIDS_OK and da = "float_datapoint 30 1000"
          and db = zero_datapoint and dc = zero_datapoint]
      analysis [where n = 2 and r = EMBEDIDS_ERROR_THRESHOLD_EXCEEDED
          and da = "float_datapoint 30 1000" and db = "float_datapoint 75 2000"
          and dc = zero_datapoint]
    by (simp add: float_datapoint_def float_value_def)
qed

text \<open>
  The claim as first stated, with the per-metric result read on the metric itself, fails
  when two active metrics carry the same name. In \<open>duplicate_name_context\<close> the only enabled
  metric has no algorithm, so the sweep over the metrics themselves gives Ok; the code looks
  the enabled metric up by its name, finds the disabled metric stored before it, and
  AnalyzeAll returns MetricDisabled.
\<close>

theorem analyze_all_duplicate_names:
  "embedids_analyze_all (Some duplicate_name_context) ()
     = Some (EMBEDIDS_ERROR_METRIC_DISABLED, Some duplicate_name_context, ())
   \<and> returning duplicate_name_context
       (spec_analyze_all (the (system_config duplicate_name_context)) ())
     = Some (EMBEDIDS_OK, Some duplicate_name_context, ())"
proof -
  have code: "embedids_analyze_all (Some duplicate_name_context) ()
     = Some (EMBEDIDS_ERROR_METRIC_DISABLED, Some duplicate_name_context, ())"
    by (simp add: duplicate_name_context_def context_of_def fresh_metric_def
        embedids_analyze_all_def analyze_all_loop.simps embedids_analyze_metric_def
        find_metric_config_def find_metric_loop.simps deref_config_def strncmp_eq_0_iff
        Let_def)
  have spec: "returning duplicate_name_context
       (spec_analyze_all (the (system_config duplicate_name_context)) ())
     = Some (EMBEDIDS_OK, Some duplicate_name_context, ())"
    by (simp add: duplicate_name_context_def context_of_def fresh_metric_def
        spec_analyze_all_def enabled_metrics_def enabled_algorithms_def returning_def)
  from code spec show ?thesis by (intro conjI)
qed

section \<open>Analysis with built-in algorithms only\<close>

lemma find_metric_loop_range:
  "find_metric_loop sc nm i = Some (Some k)
     \<Longrightarrow> k < unat (num_active_metrics sc) \<and> k < length (metrics sc)"
proof (induction sc nm i rule: find_metric_loop.induct)
  case (1 sc nm i)
  from "1.prems" have active: "i < unat (num_active_metrics sc)" and inb: "i < length (metrics sc)"
    by (subst (asm) find_metric_loop.simps, simp split: if_splits)+
  show ?case
  proof (cases "strncmp (name (metric (metrics sc ! i))) nm EMBEDIDS_MAX_METRIC_NAME_LEN = 0")
    case True
    with "1.prems" active inb have "k = i"
      by (subst (asm) find_metric_loop.simps) simp
    with active inb show ?thesis by simp
  next
    case False
    with "1.prems" active inb have "find_metric_loop sc nm (i + 1) = Some (Some k)"
      by (subst (asm) find_metric_loop.simps) simp
    with "1.IH" [OF active inb False] show ?thesis .
  qed
qed

lemma builtin_algorithm_frame:
  assumes "builtin_algorithm a" and "run_algorithm m a h = Some (r, h')"
  shows "h' = h"
  using assms
  by (auto simp: builtin_algorithm_def run_algorithm_def Let_def split: option.splits)

lemma builtin_algorithm_total:
  assumes "builtin_algorithm a" and "metric_wf m"
  shows "\<exists>r. run_algorithm m a h = Some (r, h)"
proof -
  from assms(2) obtain buf where "history m = Some buf"
    by (auto simp: metric_wf_def split: option.splits)
  from run_threshold_algorithm_wf [OF assms(2) this]
  obtain r0 where
    "run_threshold_algorithm m (threshold (embedids_algorithm_t.config a)) = Some r0"
    by blast
  then show ?thesis
    using assms(1)
    by (auto simp: builtin_algorithm_def run_algorithm_def Let_def)
qed

lemma analyze_metric_loop_frame:
  assumes "list_all builtin_algorithm (take (unat (num_algorithms mc)) (algorithms mc))"
    and "analyze_metric_loop mc i h = Some (r, h')"
  shows "h' = h"
  using assms
proof (induction mc i h rule: analyze_metric_loop.induct)
  case (1 mc i h)
  let ?n = "unat (num_algorithms mc)"
  show ?case
  proof (cases "i < ?n \<and> i < length (algorithms mc)")
    case False
    with "1.prems"(2) show ?thesis
      by (subst (asm) analyze_metric_loop.simps) (simp split: if_splits)
  next
    case True
    then have active: "i < ?n" and inb: "i < length (algorithms mc)" by simp_all
    have "algorithms mc ! i \<in> set (take ?n (algorithms mc))"
      using active inb by (metis length_take min_less_iff_conj nth_mem nth_take)
    with "1.prems"(1) have built: "builtin_algorithm (algorithms mc ! i)"
      by (simp add: list_all_iff)
    show ?thesis
    proof (cases "embedids_algorithm_t.enabled (algorithms mc ! i)")
      case False
      with "1.prems"(2) active inb have "analyze_metric_loop mc (i + 1) h = Some (r, h')"
        by (subst (asm) analyze_metric_loop.simps) (simp add: Let_def)
      with "1.IH"(1) [OF active inb refl _ "1.prems"(1)] False show ?thesis by simp
    next
      case en: True
      from "1.prems"(2) active inb en obtain r1 h1 where
        run: "run_algorithm (metric mc) (algorithms mc ! i) h = Some (r1, h1)"
        by (subst (asm) analyze_metric_loop.simps) (auto simp: Let_def split: option.splits)
      have h1: "h1 = h"
        using builtin_algorithm_frame [OF built run] .
      show ?thesis
      proof (cases "r1 = EMBEDIDS_OK")
        case False
        with "1.prems"(2) active inb en run show ?thesis
          by (subst (asm) analyze_metric_loop.simps) (simp add: Let_def h1)
      next
        case True
        with "1.prems"(2) active inb en run
        have "analyze_metric_loop mc (i + 1) h1 = Some (r, h')"
          by (subst (asm) analyze_metric_loop.simps) (simp add: Let_def)
        with "1.IH"(2) [of "algorithms mc ! i" "(r1, h1)" r1 h1] active inb en run True
          "1.prems"(1) h1
        show ?thesis by simp
      qed
    qed
  qed
qed

lemma builtin_only_algorithms:
  assumes "builtin_only c" and "system_config c = Some sc"
    and "k < unat (num_active_metrics sc)" and "k < length (metrics sc)"
  shows "list_all builtin_algorithm
           (take (unat (num_algorithms (metrics sc ! k))) (algorithms (metrics sc ! k)))"
proof -
  have "metrics sc ! k \<in> set (take (unat (num_active_metrics sc)) (metrics sc))"
    using assms(3,4) by (metis length_take min_less_iff_conj nth_mem nth_take)
  then show ?thesis
    using assms(1,2) by (simp add: builtin_only_def list_all_iff)
qed

lemma analyze_metric_frame:
  assumes "builtin_only c"
    and "embedids_analyze_metric (Some c) metric_name h = Some (r, ctx', h')"
  shows "ctx' = Some c \<and> h' = h"
proof -
  have ctx: "ctx' = Some c"
    using assms(2) by (rule embedids_analyze_metric_context)
  have "h' = h"
  proof (cases "initialized c \<and> (\<exists>nm sc k. metric_name = Some nm \<and> system_config c = Some sc
            \<and> find_metric_loop sc nm 0 = Some (Some k)
            \<and> embedids_metric_t.enabled (metric (metrics sc ! k)))")
    case False
    with assms(2) show ?thesis
      by (auto simp: embedids_analyze_metric_def find_metric_config_def deref_config_def
          split: option.splits if_splits)
  next
    case True
    then obtain nm sc k where nm: "metric_name = Some nm" and sc: "system_config c = Some sc"
      and k: "find_metric_loop sc nm 0 = Some (Some k)"
      and en: "embedids_metric_t.enabled (metric (metrics sc ! k))" and init: "initialized c"
      by blast
    from find_metric_loop_range [OF k]
    have range: "k < unat (num_active_metrics sc)" "k < length (metrics sc)" by simp_all
    have "analyze_metric_loop (metrics sc ! k) 0 h = Some (r, h')"
      using assms(2) init nm sc k en range
      by (auto simp: embedids_analyze_metric_def find_metric_config_def deref_config_def
          split: option.splits)
    with builtin_only_algorithms [OF assms(1) sc range] show ?thesis
      by (rule analyze_metric_loop_frame)
  qed
  with ctx show ?thesis by simp
qed

lemma analyze_all_loop_frame:
  assumes "builtin_only c" and "analyze_all_loop c i h = Some (r, ctx', h')"
  shows "ctx' = Some c \<and> h' = h"
  using assms
proof (induction c i h rule: analyze_all_loop.induct)
  case (1 c i h)
  from "1.prems"(2) obtain sc where sc: "system_config c = Some sc"
    by (subst (asm) analyze_all_loop.simps) (auto split: option.splits)
  let ?n = "unat (num_active_metrics sc)"
  have unfold: "analyze_all_loop c i h =
          (if i < unat (num_active_metrics sc) then
            (if i < length (metrics sc) then
               let mc = metrics sc ! i in
               if embedids_metric_t.enabled (metric mc) then
                 (case embedids_analyze_metric (Some c) (Some (name (metric mc))) h of
                    None \<Rightarrow> None
                  | Some (result, ctx', h') \<Rightarrow>
                      if result \<noteq> EMBEDIDS_OK then Some (result, ctx', h')
                      else (case ctx' of
                              None \<Rightarrow> None
                            | Some c' \<Rightarrow> analyze_all_loop c' (i + 1) h'))
               else analyze_all_loop c (i + 1) h
             else None)
          else Some (EMBEDIDS_OK, Some c, h))"
    by (subst analyze_all_loop.simps) (simp only: sc option.case)
  show ?case
  proof (cases "i < ?n \<and> i < length (metrics sc)")
    case False
    with "1.prems"(2) show ?thesis
      by (auto simp: unfold split: if_splits)
  next
    case True
    then have active: "i < ?n" and inb: "i < length (metrics sc)" by simp_all
    show ?thesis
    proof (cases "embedids_metric_t.enabled (metric (metrics sc ! i))")
      case False
      with "1.prems"(2) active inb have "analyze_all_loop c (i + 1) h = Some (r, ctx', h')"
        by (simp add: unfold Let_def)
      with "1.IH"(2) [of sc "metrics sc ! i"] sc active inb False "1.prems"(1)
      show ?thesis by simp
    next
      case en: True
      from "1.prems"(2) active inb en obtain r1 c1 h1 where
        call: "embedids_analyze_metric (Some c) (Some (name (metric (metrics sc ! i)))) h
                 = Some (r1, c1, h1)"
        by (auto simp: unfold Let_def split: option.splits)
      from analyze_metric_frame [OF "1.prems"(1) call] have same: "c1 = Some c" "h1 = h"
        by simp_all
      show ?thesis
      proof (cases "r1 = EMBEDIDS_OK")
        case False
        with "1.prems"(2) active inb en call same show ?thesis
          by (simp add: unfold Let_def)
      next
        case True
        with "1.prems"(2) active inb en call same
        have "analyze_all_loop c (i + 1) h = Some (r, ctx', h')"
          by (simp add: unfold Let_def)
        with "1.IH"(1) [of sc "metrics sc ! i" "(r1, Some c, h)" r1 "(Some c, h)" "Some c" h c]
          sc active inb en call same True "1.prems"(1)
        show ?thesis by simp
      qed
    qed
  qed
qed

lemma spec_fail_fast_total:
  assumes "\<forall>x\<in>set xs. \<exists>r. run x h = Some (r, h)"
  shows "\<exists>r. spec_fail_fast run xs h = Some (r, h)"
  using assms
proof (induction xs)
  case Nil
  then show ?case by simp
next
  case (Cons x xs)
  then obtain r1 where "run x h = Some (r1, h)" by auto
  moreover from Cons obtain r2 where "spec_fail_fast run xs h = Some (r2, h)" by auto
  ultimately show ?case by simp
qed

lemma analyze_metric_total:
  assumes "context_wf c" and "builtin_only c"
  shows "\<exists>r. embedids_analyze_metric (Some c) metric_name h = Some (r, Some c, h)"
proof -
  from assms(1) obtain sc where sc: "system_config c = Some sc"
    and bound: "unat (num_active_metrics sc) \<le> length (metrics sc)"
    and wf: "list_all config_wf (take (unat (num_active_metrics sc)) (metrics sc))"
    by (auto simp: context_wf_def split: option.splits)
  show ?thesis
  proof (cases "initialized c")
    case False
    then show ?thesis by (simp add: embedids_analyze_metric_def)
  next
    case init: True
    show ?thesis
    proof (cases metric_name)
      case None
      with init show ?thesis by (simp add: embedids_analyze_metric_def)
    next
      case (Some nm)
      from find_metric_loop_first_match [OF bound, of nm 0]
      consider (found) k where "find_metric_loop sc nm 0 = Some (Some k)"
          "k < unat (num_active_metrics sc)"
        | (missing) "find_metric_loop sc nm 0 = Some None"
        by blast
      then show ?thesis
      proof cases
        case missing
        with init Some sc show ?thesis
          by (simp add: embedids_analyze_metric_def find_metric_config_def)
      next
        case found
        let ?mc = "metrics sc ! k"
        have inb: "k < length (metrics sc)" using found(2) bound by simp
        have find: "find_metric_config (Some c) nm = Some (Some k)"
          using found(1) sc by (simp add: find_metric_config_def)
        have deref: "deref_config c k = Some ?mc"
          using sc inb by (simp add: deref_config_def)
        have "?mc \<in> set (take (unat (num_active_metrics sc)) (metrics sc))"
          using found(2) inb by (metis length_take min_less_iff_conj nth_mem nth_take)
        with wf have cwf: "config_wf ?mc" by (simp add: list_all_iff)
        show ?thesis
        proof (cases "embedids_metric_t.enabled (metric ?mc)")
          case False
          with init Some find deref show ?thesis
            by (simp add: embedids_analyze_metric_def)
        next
          case True
          have algs: "unat (num_algorithms ?mc) \<le> length (algorithms ?mc)"
            and mwf: "metric_wf (metric ?mc)"
            using cwf by (simp_all add: config_wf_def)
          have "\<exists>r. run_algorithm (metric ?mc) a h = Some (r, h)"
            if "a \<in> set (enabled_algorithms ?mc)" for a
          proof -
            from that have "builtin_algorithm a"
              using builtin_only_algorithms [OF assms(2) sc found(2) inb]
              by (auto simp: enabled_algorithms_def list_all_iff)
            then show ?thesis using mwf by (rule builtin_algorithm_total)
          qed
          then have "\<forall>a\<in>set (enabled_algorithms ?mc).
              \<exists>r. run_algorithm (metric ?mc) a h = Some (r, h)"
            by simp
          from spec_fail_fast_total [where run = "run_algorithm (metric ?mc)"
              and xs = "enabled_algorithms ?mc" and h = h, OF this] obtain r where
            "spec_fail_fast (run_algorithm (metric ?mc)) (enabled_algorithms ?mc) h = Some (r, h)"
            by blast
          with analyze_metric_found [OF init find deref True algs, of h] Some
          show ?thesis by (simp add: returning_def)
        qed
      qed
    qed
  qed
qed

lemma analyze_all_total:
  assumes "context_wf c" and "builtin_only c"
  shows "\<exists>r. embedids_analyze_all (Some c) h = Some (r, Some c, h)"
proof (cases "initialized c")
  case False
  then show ?thesis by (simp add: embedids_analyze_all_def)
next
  case True
  from assms(1) obtain sc where sc: "system_config c = Some sc"
    and bound: "unat (num_active_metrics sc) \<le> length (metrics sc)"
    by (auto simp: context_wf_def split: option.splits)
  have "\<exists>r. analyze_by_name c mc h = Some (r, h)" for mc
    using analyze_metric_total [OF assms, of "Some (name (metric mc))" h]
    by (auto simp: analyze_by_name_def)
  then have "\<forall>mc\<in>set (enabled_metrics sc). \<exists>r. analyze_by_name c mc h = Some (r, h)"
    by simp
  from spec_fail_fast_total [where run = "analyze_by_name c" and xs = "enabled_metrics sc"
      and h = h, OF this] obtain r where
    "spec_fail_fast (analyze_by_name c) (enabled_metrics sc) h = Some (r, h)"
    by blast
  with analyze_all_loop_fail_fast [OF sc bound, of 0 h] True show ?thesis
    by (simp add: embedids_analyze_all_def enabled_metrics_def returning_def)
qed

text \<open>
  C9. When every algorithm in use is of kind Threshold or Trend, AnalyzeMetric and
  AnalyzeAll change nothing: whenever they return, the context after the call (with the
  configuration, the history buffers, the current sizes and the write cursors it reaches) is
  the context before it, and so is the host memory. On a context whose counts fit its arrays
  and whose active metrics satisfy the invariants of the data model both calls do return.
\<close>

theorem builtin_analysis_read_only:
  assumes "builtin_only c"
  shows "(\<forall>r ctx' h'. embedids_analyze_metric (Some c) metric_name h = Some (r, ctx', h')
            \<longrightarrow> ctx' = Some c \<and> h' = h)
       \<and> (\<forall>r ctx' h'. embedids_analyze_all (Some c) h = Some (r, ctx', h')
            \<longrightarrow> ctx' = Some c \<and> h' = h)
       \<and> (context_wf c \<longrightarrow>
            (\<exists>r. embedids_analyze_metric (Some c) metric_name h = Some (r, Some c, h))
            \<and> (\<exists>r. embedids_analyze_all (Some c) h = Some (r, Some c, h)))"
proof -
  have one: "ctx' = Some c \<and> h' = h"
    if "embedids_analyze_metric (Some c) metric_name h = Some (r, ctx', h')" for r ctx' h'
    using assms that by (rule analyze_metric_frame)
  have all: "ctx' = Some c \<and> h' = h"
    if "embedids_analyze_all (Some c) h = Some (r, ctx', h')" for r ctx' h'
  proof (cases "initialized c")
    case False
    with that show ?thesis by (simp add: embedids_analyze_all_def)
  next
    case True
    with that have "analyze_all_loop c 0 h = Some (r, ctx', h')"
      by (simp add: embedids_analyze_all_def)
    with assms show ?thesis by (rule analyze_all_loop_frame)
  qed
  have total: "(\<exists>r. embedids_analyze_metric (Some c) metric_name h = Some (r, Some c, h))
      \<and> (\<exists>r. embedids_analyze_all (Some c) h = Some (r, Some c, h))" if "context_wf c"
    using analyze_metric_total [OF that assms] analyze_all_total [OF that assms] by simp
  from one all total show ?thesis by blast
qed

theorem builtin_analysis_read_only_witness:
  "builtin_only
     (sweep_context [float_datapoint 30 1000, float_datapoint 75 2000, zero_datapoint] 2
        :: nat embedids_context_t)
   \<and> context_wf
     (sweep_context [float_datapoint 30 1000, float_datapoint 75 2000, zero_datapoint] 2
        :: nat embedids_context_t)
   \<and> (\<exists>r. embedids_analyze_metric
          (Some (sweep_context [float_datapoint 30 1000, float_datapoint 75 2000, zero_datapoint] 2))
          (Some ''metric2'') (7 :: nat)
        = Some (r, Some (sweep_context
                  [float_datapoint 30 1000, float_datapoint 75 2000, zero_datapoint] 2), 7))
   \<and> (\<exists>r. embedids_analyze_all
          (Some (sweep_context [float_datapoint 30 1000, float_datapoint 75 2000, zero_datapoint] 2))
          (7 :: nat)
        = Some (r, Some (sweep_context
                  [float_datapoint 30 1000, float_datapoint 75 2000, zero_datapoint] 2), 7))"
proof -
  let ?c = "sweep_context [float_datapoint 30 1000, float_datapoint 75 2000, zero_datapoint] 2
              :: nat embedids_context_t"
  have builtin: "builtin_only ?c"
    by (simp add: builtin_only_def sweep_context_def context_of_def builtin_algorithm_def
        threshold_algorithm_def)
  have wf: "context_wf ?c"
    by (simp add: context_wf_def config_wf_def metric_wf_def sweep_context_def context_of_def
        fresh_metric_def)
  from builtin_analysis_read_only [OF builtin, of "Some ''metric2''" 7] wf
  have "(\<exists>r. embedids_analyze_metric (Some ?c) (Some ''metric2'') 7 = Some (r, Some ?c, 7))
      \<and> (\<exists>r. embedids_analyze_all (Some ?c) 7 = Some (r, Some ?c, 7))"
    by (elim conjE impE) simp_all
  with builtin wf show ?thesis by simp
qed

section \<open>The trend heuristic of GetTrend\<close>

lemma replicate_10: "replicate 10 x = [x, x, x, x, x, x, x, x, x, x]"
  by (simp add: numeral_eq_Suc)

lemma rising_then_flat_reached:
  "add_datapoints (trend_context (replicate 10 zero_datapoint) 0) ''cpu_usage''
     [(float_value 10, 1000), (float_value 20, 2000), (float_value 30, 3000),
      (float_value 30, 4000), (float_value 30, 5000)]
   = Some (trend_context rising_then_flat 5)"
  by (simp add: trend_context_def rising_then_flat_def context_of_def fresh_metric_def
      embedids_add_datapoint_def find_metric_config_def find_metric_loop.simps
      deref_config_def store_metric_def store_datapoint_def strncmp_eq_0_iff
      float_datapoint_def replicate_10 Let_def)

lemma rising_then_flat_code:
  "embedids_get_trend (Some (trend_context rising_then_flat 5)) (Some ''cpu_usage'')
     (Some EMBEDIDS_TREND_STABLE)
   = Some (EMBEDIDS_OK, Some (trend_context rising_then_flat 5), Some EMBEDIDS_TREND_INCREASING)"
  by (simp add: trend_context_def rising_then_flat_def context_of_def fresh_metric_def
      embedids_get_trend_def find_metric_config_def find_metric_loop.simps
      deref_config_def strncmp_eq_0_iff metric_trend_def trend_loop.simps supported_type_def
      array_read_def value_as_float_def classify_trend_def
      float_datapoint_def float_value_def zero_value_def zero_datapoint_def Let_def)

lemma rising_then_flat_windows:
  "spec_window ((fresh_metric ''cpu_usage'' EMBEDIDS_METRIC_TYPE_FLOAT 10)
      \<lparr>history := Some rising_then_flat, current_size := 5, write_index := 5\<rparr>) = [30, 30, 30]
   \<and> oldest_window ((fresh_metric ''cpu_usage'' EMBEDIDS_METRIC_TYPE_FLOAT 10)
      \<lparr>history := Some rising_then_flat, current_size := 5, write_index := 5\<rparr>) = [10, 20, 30]"
  by (simp add: spec_window_def oldest_window_def sample_values_def samples_def fresh_metric_def
      rising_then_flat_def as_float_def value_as_float_def float_datapoint_def
      float_value_def)

lemma samples_nth:
  assumes "ring_invar m" and "history m = Some buf"
  shows "length (samples m) = unat (current_size m)"
    and "k < unat (current_size m) \<Longrightarrow>
         samples m ! k
           = buf ! ((unat (if current_size m = max_history_size m then write_index m else 0) + k)
                      mod length buf)"
proof -
  let ?C = "max_history_size m" and ?wi = "write_index m" and ?cs = "current_size m"
  from assms have len: "length buf = unat ?C" and wi: "?wi < ?C" and cs: "?cs \<le> ?C"
    by (auto simp: ring_invar_def metric_wf_def)
  have w_lt: "unat ?wi < length buf"
    using wi len by (simp add: word_less_nat_alt)
  have n_le: "unat ?cs \<le> length buf"
    using cs len by (simp add: word_le_nat_alt)
  show "length (samples m) = unat ?cs"
    using assms(2) len n_le w_lt by (auto simp: samples_def)
  show "samples m ! k
      = buf ! ((unat (if ?cs = ?C then ?wi else 0) + k) mod length buf)"
    if k: "k < unat ?cs"
  proof (cases "?cs = ?C")
    case True
    then have "samples m = rotate (unat ?wi) buf"
      using assms(2) w_lt by (simp add: samples_def rotate_drop_take)
    moreover have "k < length buf" using k True len by simp
    ultimately show ?thesis
      using True by (simp add: nth_rotate)
  next
    case False
    have "k < length buf" using k n_le by simp
    then show ?thesis
      using False assms(2) k by (simp add: samples_def)
  qed
qed

lemma classify_trend_spec:
  "classify_trend avg_change first_val
     = (if \<bar>avg_change\<bar> < max (\<bar>first_val\<bar> * 0.05) 1.0 then EMBEDIDS_TREND_STABLE
        else if avg_change > 0 then EMBEDIDS_TREND_INCREASING
        else EMBEDIDS_TREND_DECREASING)"
  by (simp add: classify_trend_def Let_def max_def)

lemma supported_value_as_float:
  assumes "supported_type t"
  shows "value_as_float t (value d) = Some (as_float t d)"
  using assms by (cases t) (simp_all add: supported_type_def value_as_float_def as_float_def)

lemma take_3_of_two:
  assumes "length xs = 2"
  shows "take 3 xs = [xs ! 0, xs ! 1]"
proof -
  from assms obtain a b where "xs = [a, b]"
    by (auto simp: numeral_2_eq_2 length_Suc_conv)
  then show ?thesis by simp
qed

lemma take_3_of_more:
  assumes "3 \<le> length xs"
  shows "take 3 xs = [xs ! 0, xs ! 1, xs ! 2]"
proof -
  from assms obtain a b c rest where "xs = a # b # c # rest"
    by (auto simp: numeral_3_eq_3 Suc_le_length_iff)
  then show ?thesis by simp
qed

text \<open>
  What the code computes, in the exact arithmetic of the embedding. For a metric of a
  supported type that has been filled from the empty state, \<open>metric_trend\<close> is the heuristic
  applied to the at most three oldest retained samples. (The bound on the capacity keeps
  \<open>start_index + i\<close> from wrapping around.)
\<close>

lemma metric_trend_oldest_window:
  assumes inv: "ring_invar m"
    and sup: "supported_type (embedids_metric_t.type m)"
    and small: "unat (max_history_size m) < 2 ^ 32 - 2"
  shows "metric_trend m = Some (spec_trend_of (oldest_window m))"
proof -
  let ?C = "max_history_size m" and ?wi = "write_index m" and ?cs = "current_size m"
  let ?t = "embedids_metric_t.type m"
  from inv obtain buf where buf: "history m = Some buf" and len: "length buf = unat ?C"
    and wi: "?wi < ?C" and cs: "?cs \<le> ?C"
    by (auto simp: ring_invar_def metric_wf_def split: option.splits)
  define s where "s = (if ?cs = ?C then ?wi else 0)"
  define f where "f k = as_float ?t (buf ! ((unat s + k) mod length buf))" for k
  have C_pos: "0 < unat ?C"
    using wi by (metis gr_zeroI not_less_zero word_less_nat_alt)
  have s_lt: "s < ?C"
    using wi C_pos by (auto simp: s_def word_less_nat_alt)
  have s_nat: "unat s < length buf"
    using s_lt len by (simp add: word_less_nat_alt)
  have read: "array_read (history m) (j mod length buf) = Some (buf ! (j mod length buf))" for j
    using buf len C_pos by (simp add: array_read_def)
  have i0: "unat (s mod ?C) = (unat s + 0) mod length buf"
    by (simp add: unat_mod len)
  have i1: "unat ((s + 1) mod ?C) = (unat s + 1) mod length buf"
    using unat_next_index [OF s_lt] len by simp
  have i1c: "unat ((1 + s) mod ?C) = (unat s + 1) mod length buf"
    using i1 by (simp add: add.commute)
  have "unat s + 2 < 2 ^ 32"
    using s_nat len small by simp
  then have "unat (s + 2) = unat s + 2"
    by (simp add: unat_word_ariths)
  then have i2: "unat ((s + 2) mod ?C) = (unat s + 2) mod length buf"
    by (simp add: unat_mod len)
  have conv: "value_as_float ?t (value d) = Some (as_float ?t d)" for d
    using sup by (rule supported_value_as_float)
  have nonzero: "?C \<noteq> 0"
    using wi by auto
  have two: "(1::nat) + 1 = 2" and three: "(2::nat) + 1 = 3"
    by simp_all
  have step1: "trend_loop m s np 1 acc ch = trend_loop m s np 2 (acc + (f 1 - f 0)) (ch + 1)"
    if "1 < unat np" for np acc ch
    using that sup nonzero read [of "unat s + 1"] read [of "unat s + 0"] i0 i1 conv
    by (subst trend_loop.simps, subst two) (simp add: Let_def f_def)
  have step2: "trend_loop m s np 2 acc ch = trend_loop m s np 3 (acc + (f 2 - f 1)) (ch + 1)"
    if "2 < unat np" for np acc ch
    using that sup nonzero read [of "unat s + 2"] read [of "unat s + 1"] i1 i1c i2 conv
    by (subst trend_loop.simps, subst three) (simp add: Let_def f_def)
  have exit: "trend_loop m s np i acc ch = Some (Some (acc, ch))"
    if "\<not> i < unat np" for np i acc ch
    using that by (subst trend_loop.simps) simp
  have first: "array_read (history m) (unat s) = Some (buf ! unat s)"
    using buf s_nat by (simp add: array_read_def)
  have f0: "as_float ?t (buf ! unat s) = f 0"
    using s_nat by (simp add: f_def)
  have n_len: "length (sample_values m) = unat ?cs"
    using samples_nth(1) [OF inv buf] by (simp add: sample_values_def)
  have val: "sample_values m ! k = f k" if "k < unat ?cs" for k
    using samples_nth [OF inv buf] that by (simp add: sample_values_def f_def s_def)
  consider (few) "unat ?cs < 2" | (two) "unat ?cs = 2" | (more) "3 \<le> unat ?cs"
    by arith
  then show ?thesis
  proof cases
    case few
    then have "?cs < 2" by (simp add: word_less_nat_alt)
    moreover have "length (oldest_window m) < 2"
      using few n_len by (simp add: oldest_window_def)
    ultimately show ?thesis
      by (simp add: metric_trend_def spec_trend_of_def)
  next
    case two
    then have c2: "\<not> ?cs < 2" "?cs < 3" by (simp_all add: word_less_nat_alt)
    have win: "oldest_window m = [f 0, f 1]"
      using two n_len val [of 0] val [of 1] take_3_of_two [of "sample_values m"]
      by (simp add: oldest_window_def)
    have loop: "trend_loop m s ?cs 1 0 0 = Some (Some (f 1 - f 0, 1))"
      using step1 [of ?cs 0 0] exit [of 2 ?cs] two by simp
    show ?thesis
      using c2 loop first f0 sup conv
      by (simp add: metric_trend_def s_def [symmetric] Let_def win spec_trend_of_def
          classify_trend_spec)
  next
    case more
    then have c3: "\<not> ?cs < 2" "\<not> ?cs < 3" by (simp_all add: word_less_nat_alt)
    have win: "oldest_window m = [f 0, f 1, f 2]"
      using more n_len val [of 0] val [of 1] val [of 2] take_3_of_more [of "sample_values m"]
      by (simp add: oldest_window_def)
    have loop: "trend_loop m s 3 1 0 0 = Some (Some ((f 1 - f 0) + (f 2 - f 1), 2))"
      using step1 [of 3 0 0] step2 [of 3 "f 1 - f 0" 1] exit [of 3 3] by simp
    show ?thesis
      using c3 loop first f0 sup conv
      by (simp add: metric_trend_def s_def [symmetric] Let_def win spec_trend_of_def
          classify_trend_spec)
  qed
qed

lemma metric_trend_few_samples:
  assumes "ring_invar m"
    and "supported_type (embedids_metric_t.type m)"
    and "unat (max_history_size m) < 2 ^ 32 - 2"
    and "unat (current_size m) \<le> 3"
  shows "metric_trend m = Some (spec_get_trend m)"
proof -
  from assms(1) obtain buf where "history m = Some buf"
    by (auto simp: ring_invar_def metric_wf_def split: option.splits)
  from samples_nth(1) [OF assms(1) this] assms(4)
  have "length (sample_values m) \<le> 3"
    by (simp add: sample_values_def)
  then have "oldest_window m = spec_window m"
    by (simp add: oldest_window_def spec_window_def)
  with metric_trend_oldest_window [OF assms(1-3)] assms(2) show ?thesis
    by (simp add: spec_get_trend_def)
qed

text \<open>
  C1. GetTrend on a float metric of capacity 10 that received 10, 20, 30, 30, 30. The three
  most recent samples are 30, 30, 30, for which the heuristic of the specification answers
  Stable. The function starts at the oldest retained sample (\<open>start_index\<close> is 0, or the
  write cursor of a full buffer) and reads the three samples from there, 10, 20, 30: it
  returns Ok and stores Increasing.
\<close>

theorem get_trend_reads_oldest_samples:
  "add_datapoints (trend_context (replicate 10 zero_datapoint) 0) ''cpu_usage''
     [(float_value 10, 1000), (float_value 20, 2000), (float_value 30, 3000),
      (float_value 30, 4000), (float_value 30, 5000)]
     = Some (trend_context rising_then_flat 5)
   \<and> embedids_get_trend (Some (trend_context rising_then_flat 5)) (Some ''cpu_usage'')
       (Some EMBEDIDS_TREND_STABLE)
     = Some (EMBEDIDS_OK, Some (trend_context rising_then_flat 5),
             Some EMBEDIDS_TREND_INCREASING)
   \<and> spec_window ((fresh_metric ''cpu_usage'' EMBEDIDS_METRIC_TYPE_FLOAT 10)
        \<lparr>history := Some rising_then_flat, current_size := 5, write_index := 5\<rparr>)
     = [30, 30, 30]
   \<and> oldest_window ((fresh_metric ''cpu_usage'' EMBEDIDS_METRIC_TYPE_FLOAT 10)
        \<lparr>history := Some rising_then_flat, current_size := 5, write_index := 5\<rparr>)
     = [10, 20, 30]
   \<and> spec_get_trend ((fresh_metric ''cpu_usage'' EMBEDIDS_METRIC_TYPE_FLOAT 10)
        \<lparr>history := Some rising_then_flat, current_size := 5, write_index := 5\<rparr>)
     = EMBEDIDS_TREND_STABLE"
proof -
  let ?m = "(fresh_metric ''cpu_usage'' EMBEDIDS_METRIC_TYPE_FLOAT 10)
        \<lparr>history := Some rising_then_flat, current_size := 5, write_index := 5\<rparr>"
  have "supported_type (embedids_metric_t.type ?m)"
    by (simp add: supported_type_def fresh_metric_def)
  moreover have "spec_trend_of [30, 30, 30] = EMBEDIDS_TREND_STABLE"
    by (simp add: spec_trend_of_def)
  ultimately have "spec_get_trend ?m = EMBEDIDS_TREND_STABLE"
    using rising_then_flat_windows by (simp add: spec_get_trend_def)
  with rising_then_flat_reached rising_then_flat_code rising_then_flat_windows
  show ?thesis by simp
qed

end
